theory Spec2Isabelle
  imports Complex_Main
begin

section \<open>Values and exceptions\<close>

text \<open>
  The exceptions that the downloader defines or that its statements can raise. The three
  classes of the module come first; the others are Python's built-in ones.
  \<open>FileNotFoundError\<close> and \<open>IOError\<close> both belong to the \<open>OSError\<close> family, which is
  what \<open>except IOError\<close> catches.
\<close>

datatype error =
    MaxCountError
  | APIError string
  | ConnectionError
  | ValueError
  | TypeError
  | KeyError
  | IndexError
  | AttributeError
  | ZeroDivisionError
  | OverflowError
  | IOError string
  | FileNotFoundError string
  | KeyboardInterrupt

text \<open>
  A time in the configuration is \<open>None\<close>, a UNIX integer or a string; a field of an
  emitted candle is a string or an integer.
\<close>

datatype pyval = PNone | PInt int | PStr string

section \<open>Time utilities\<close>

subsection \<open>\<open>time_crop_fraction\<close>\<close>

text \<open>
  \<open>re.sub('\..*', '', time)\<close>: every match of a dot followed by the rest of its line is
  deleted. The dot of the pattern's \<open>.*\<close> does not match a newline, so a match ends
  before the next newline and the scan resumes there.
\<close>

function time_crop_fraction :: "string \<Rightarrow> string" where
  "time_crop_fraction [] = []"
| "time_crop_fraction (c # cs) =
     (if c = CHR ''.'' then time_crop_fraction (dropWhile (\<lambda>x. x \<noteq> CHR 0x0A) cs)
      else c # time_crop_fraction cs)"
  by pat_completeness auto
termination
  by (relation "measure length") (auto simp: less_Suc_eq_le length_dropWhile_le)

subsection \<open>\<open>datetime.strptime\<close> for the two formats in use\<close>

text \<open>
  The library compiles a format into a regular expression: \<open>%Y\<close> is four digits, the
  other directives are a two-digit alternative tried before a one-digit one (\<open>%d\<close> also
  takes a space and a digit). The literal that follows a field is never a digit, so the
  ordered choice below accepts exactly what the expression matches. The whole string
  must be consumed.
\<close>

definition is_digit :: "char \<Rightarrow> bool" where
  "is_digit c = (c \<in> set ''0123456789'')"

definition digit_val :: "char \<Rightarrow> nat" where
  "digit_val c = of_char c - 48"

fun num_field :: "nat \<Rightarrow> nat \<Rightarrow> string \<Rightarrow> (nat \<times> string) option" where
  "num_field lo hi (a # b # rest) =
     (if is_digit a \<and> is_digit b \<and> lo \<le> 10 * digit_val a + digit_val b
         \<and> 10 * digit_val a + digit_val b \<le> hi
      then Some (10 * digit_val a + digit_val b, rest)
      else if is_digit a \<and> lo \<le> digit_val a then Some (digit_val a, b # rest)
      else None)"
| "num_field lo hi [a] = (if is_digit a \<and> lo \<le> digit_val a then Some (digit_val a, []) else None)"
| "num_field lo hi [] = None"

fun day_field :: "string \<Rightarrow> (nat \<times> string) option" where
  "day_field s =
     (case num_field 1 31 s of
        Some r \<Rightarrow> Some r
      | None \<Rightarrow>
          (case s of
             a # b # rest \<Rightarrow>
               if a = CHR '' '' \<and> is_digit b \<and> 1 \<le> digit_val b then Some (digit_val b, rest)
               else None
           | _ \<Rightarrow> None))"

fun year_field :: "string \<Rightarrow> (nat \<times> string) option" where
  "year_field (a # b # c # d # rest) =
     (if is_digit a \<and> is_digit b \<and> is_digit c \<and> is_digit d
      then Some (1000 * digit_val a + 100 * digit_val b + 10 * digit_val c + digit_val d, rest)
      else None)"
| "year_field _ = None"

text \<open>The expression is compiled with \<open>IGNORECASE\<close>, so a literal letter matches in both cases.\<close>

fun literal :: "char list \<Rightarrow> string \<Rightarrow> string option" where
  "literal alts (c # rest) = (if c \<in> set alts then Some rest else None)"
| "literal alts [] = None"

record civil =
  c_year :: nat
  c_month :: nat
  c_day :: nat
  c_hour :: nat
  c_minute :: nat
  c_second :: nat

definition is_leap :: "nat \<Rightarrow> bool" where
  "is_leap y = (y mod 4 = 0 \<and> (y mod 100 \<noteq> 0 \<or> y mod 400 = 0))"

definition days_in_month :: "nat \<Rightarrow> nat \<Rightarrow> nat" where
  "days_in_month y m =
     (if m = 2 then (if is_leap y then 29 else 28)
      else if m \<in> {4, 6, 9, 11} then 30 else 31)"

text \<open>
  The \<open>datetime\<close> constructor refuses year 0, a day that the month does not have, and
  the leap seconds 60 and 61 that the expression lets through.
\<close>

definition valid_civil :: "civil \<Rightarrow> bool" where
  "valid_civil c =
     (1 \<le> c_year c \<and> 1 \<le> c_month c \<and> c_month c \<le> 12 \<and> 1 \<le> c_day c
      \<and> c_day c \<le> days_in_month (c_year c) (c_month c)
      \<and> c_hour c \<le> 23 \<and> c_minute c \<le> 59 \<and> c_second c \<le> 59)"

definition parse_ymd :: "string \<Rightarrow> (nat \<times> nat \<times> nat \<times> string) option" where
  "parse_ymd s =
     (case year_field s of None \<Rightarrow> None | Some (y, s1) \<Rightarrow>
      case literal ''-'' s1 of None \<Rightarrow> None | Some s2 \<Rightarrow>
      case num_field 1 12 s2 of None \<Rightarrow> None | Some (m, s3) \<Rightarrow>
      case literal ''-'' s3 of None \<Rightarrow> None | Some s4 \<Rightarrow>
      case day_field s4 of None \<Rightarrow> None | Some (d, s5) \<Rightarrow> Some (y, m, d, s5))"

definition parse_hms :: "string \<Rightarrow> (nat \<times> nat \<times> nat \<times> string) option" where
  "parse_hms s =
     (case num_field 0 23 s of None \<Rightarrow> None | Some (h, s1) \<Rightarrow>
      case literal '':'' s1 of None \<Rightarrow> None | Some s2 \<Rightarrow>
      case num_field 0 59 s2 of None \<Rightarrow> None | Some (mi, s3) \<Rightarrow>
      case literal '':'' s3 of None \<Rightarrow> None | Some s4 \<Rightarrow>
      case num_field 0 61 s4 of None \<Rightarrow> None | Some (sec, s5) \<Rightarrow> Some (h, mi, sec, s5))"

definition checked :: "civil \<Rightarrow> civil option" where
  "checked c = (if valid_civil c then Some c else None)"

text \<open>\<open>strptime(time, '%Y-%m-%dT%H:%M:%S')\<close>; \<open>None\<close> stands for its \<open>ValueError\<close>.\<close>

definition strptime_datetime :: "string \<Rightarrow> civil option" where
  "strptime_datetime s =
     (case parse_ymd s of None \<Rightarrow> None | Some (y, m, d, s1) \<Rightarrow>
      case literal ''Tt'' s1 of None \<Rightarrow> None | Some s2 \<Rightarrow>
      case parse_hms s2 of None \<Rightarrow> None | Some (h, mi, sec, s3) \<Rightarrow>
      if s3 = [] then
        checked \<lparr>c_year = y, c_month = m, c_day = d, c_hour = h, c_minute = mi, c_second = sec\<rparr>
      else None)"

text \<open>\<open>strptime(time, '%Y-%m-%d')\<close>: midnight of the date.\<close>

definition strptime_date :: "string \<Rightarrow> civil option" where
  "strptime_date s =
     (case parse_ymd s of None \<Rightarrow> None | Some (y, m, d, s1) \<Rightarrow>
      if s1 = [] then
        checked \<lparr>c_year = y, c_month = m, c_day = d, c_hour = 0, c_minute = 0, c_second = 0\<rparr>
      else None)"

subsection \<open>\<open>datetime.timestamp\<close> of a naive value\<close>

text \<open>
  The proleptic Gregorian ordinal as the library computes it (day 1 is 0001-01-01), and
  the seconds from 1970-01-01T00:00:00 to the wall-clock reading.
\<close>

definition days_before_year :: "nat \<Rightarrow> nat" where
  "days_before_year y = (y - 1) * 365 + (y - 1) div 4 - (y - 1) div 100 + (y - 1) div 400"

definition days_before_month :: "nat \<Rightarrow> nat \<Rightarrow> nat" where
  "days_before_month y m = sum_list (map (days_in_month y) [1..<m])"

definition toordinal :: "civil \<Rightarrow> nat" where
  "toordinal c = days_before_year (c_year c) + days_before_month (c_year c) (c_month c) + c_day c"

definition wall_seconds :: "civil \<Rightarrow> int" where
  "wall_seconds c =
     (int (toordinal c) - 719163) * 86400
       + int (c_hour c) * 3600 + int (c_minute c) * 60 + int (c_second c)"

text \<open>
  A value parsed by \<open>strptime\<close> carries no zone, and \<open>timestamp()\<close> reads it as local
  time. The zone of the host is a parameter: \<open>utcoffset u\<close> is the offset of local time
  from UTC, in seconds, in force at the instant \<open>u\<close> (a UNIX time).

  The library's \<open>local(u)\<close> is the wall-clock reading that the host shows at the
  instant \<open>u\<close>. It raises \<open>ValueError\<close>, here \<open>None\<close>, when the year of that reading is
  not one of 1 to 9999: the reading must lie between 0001-01-01T00:00:00 and
  9999-12-31T23:59:59.
\<close>

definition min_seconds :: int where
  "min_seconds = - 62135596800"

definition max_seconds :: int where
  "max_seconds = 253402300799"

definition local_seconds :: "(int \<Rightarrow> int) \<Rightarrow> int \<Rightarrow> int option" where
  "local_seconds utcoffset u =
     (if min_seconds \<le> u + utcoffset u \<and> u + utcoffset u \<le> max_seconds
      then Some (u + utcoffset u)
      else None)"

text \<open>
  \<open>local_to_seconds\<close> of the library solves \<open>local(u) = t\<close> for the instant \<open>u\<close>, the
  wall-clock reading \<open>t\<close> being given. It takes the offset \<open>a\<close> that is in force at \<open>t\<close>
  read as an instant, tries \<open>u1 = t - a\<close>, looks a day earlier for another offset \<open>b\<close>
  (a naive value has \<open>fold = 0\<close>), and tries \<open>u2 = t - b\<close>; for a reading that the local
  clock skips it returns the later of the two. Each call of \<open>local\<close> may raise.
\<close>

definition second_solution :: "(int \<Rightarrow> int) \<Rightarrow> int \<Rightarrow> int \<Rightarrow> int \<Rightarrow> int \<Rightarrow> int option" where
  "second_solution utcoffset t b u1 t1 =
     (case local_seconds utcoffset (t - b) of
        None \<Rightarrow> None
      | Some t2 \<Rightarrow>
          if t2 = t then Some (t - b)
          else if t1 = t then Some u1
          else Some (max u1 (t - b)))"

definition local_to_seconds :: "(int \<Rightarrow> int) \<Rightarrow> int \<Rightarrow> int option" where
  "local_to_seconds utcoffset t =
     (case local_seconds utcoffset t of
        None \<Rightarrow> None
      | Some lt \<Rightarrow>
          (let a = lt - t; u1 = t - a in
           case local_seconds utcoffset u1 of
             None \<Rightarrow> None
           | Some t1 \<Rightarrow>
               if t1 = t then
                 (case local_seconds utcoffset (u1 - 86400) of
                    None \<Rightarrow> None
                  | Some lt' \<Rightarrow>
                      (let b = lt' - (u1 - 86400) in
                       if a = b then Some u1 else second_solution utcoffset t b u1 t1))
               else second_solution utcoffset t (t1 - u1) u1 t1))"

text \<open>
  \<open>timestamp()\<close> of a naive value, in whole seconds; \<open>None\<close> stands for the
  \<open>ValueError\<close> of \<open>local\<close>.
\<close>

definition timestamp :: "(int \<Rightarrow> int) \<Rightarrow> civil \<Rightarrow> int option" where
  "timestamp utcoffset c = local_to_seconds utcoffset (wall_seconds c)"

subsection \<open>\<open>int\<close> of a string\<close>

text \<open>
  Base-ten \<open>int(s)\<close>: blanks around the literal are dropped, one sign is allowed, and
  single underscores may separate digits. A literal of more than 4300 digits is
  refused (the interpreter's default limit on the conversion of a string to an integer;
  the sign, the underscores and the blanks do not count). \<open>None\<close> stands for
  \<open>ValueError\<close>.
\<close>

definition max_str_digits :: nat where
  "max_str_digits = 4300"

definition is_space :: "char \<Rightarrow> bool" where
  "is_space c = (c \<in> {CHR '' '', CHR 0x09, CHR 0x0A, CHR 0x0B, CHR 0x0C, CHR 0x0D})"

definition strip :: "string \<Rightarrow> string" where
  "strip s = rev (dropWhile is_space (rev (dropWhile is_space s)))"

fun digits_val :: "nat \<Rightarrow> string \<Rightarrow> nat option" where
  "digits_val acc [] = Some acc"
| "digits_val acc [c] = (if is_digit c then Some (10 * acc + digit_val c) else None)"
| "digits_val acc (c # d # rest) =
     (if is_digit c then digits_val (10 * acc + digit_val c) (d # rest)
      else if c = CHR ''_'' \<and> is_digit d then digits_val acc (d # rest)
      else None)"

definition unsigned_int :: "string \<Rightarrow> nat option" where
  "unsigned_int s =
     (case s of
        [] \<Rightarrow> None
      | c # _ \<Rightarrow>
          if is_digit c \<and> length (filter is_digit s) \<le> max_str_digits then digits_val 0 s
          else None)"

definition py_int :: "string \<Rightarrow> int option" where
  "py_int s =
     (case strip s of
        [] \<Rightarrow> None
      | c # rest \<Rightarrow>
          if c = CHR ''-'' then map_option (\<lambda>n. - int n) (unsigned_int rest)
          else if c = CHR ''+'' then map_option int (unsigned_int rest)
          else map_option int (unsigned_int (c # rest)))"

subsection \<open>\<open>time_to_unix\<close>\<close>

text \<open>
  \<open>None\<close> stays \<open>None\<close>. For an integer both \<open>strptime\<close> calls raise \<open>TypeError\<close>,
  which is caught, and \<open>int\<close> returns it. For a string the two formats are tried in
  turn and then \<open>int\<close>, whose \<open>ValueError\<close> is not caught. Each \<open>try\<close> holds the call
  of \<open>strptime\<close> and the call of \<open>timestamp\<close>, so a \<open>ValueError\<close> of either one leads
  to the next attempt.
\<close>

definition convert :: "(int \<Rightarrow> int) \<Rightarrow> civil option \<Rightarrow> int option" where
  "convert utcoffset parsed = (case parsed of None \<Rightarrow> None | Some c \<Rightarrow> timestamp utcoffset c)"

fun time_to_unix :: "(int \<Rightarrow> int) \<Rightarrow> pyval \<Rightarrow> error + pyval" where
  "time_to_unix utcoffset PNone = Inr PNone"
| "time_to_unix utcoffset (PInt n) = Inr (PInt n)"
| "time_to_unix utcoffset (PStr s) =
     (case convert utcoffset (strptime_datetime s) of
        Some n \<Rightarrow> Inr (PInt n)
      | None \<Rightarrow>
          (case convert utcoffset (strptime_date s) of
             Some n \<Rightarrow> Inr (PInt n)
           | None \<Rightarrow>
               (case py_int s of
                  Some n \<Rightarrow> Inr (PInt n)
                | None \<Rightarrow> Inl ValueError)))"

text \<open>The number that a string of decimal digits denotes.\<close>

definition decimal :: "string \<Rightarrow> nat" where
  "decimal s = foldl (\<lambda>a c. 10 * a + digit_val c) 0 s"

section \<open>Candles, configuration and the remote API\<close>

text \<open>The two constants of the module.\<close>

definition MAX_API_CANDLES :: int where
  "MAX_API_CANDLES = 5000"

definition MIN_TIME :: int where
  "MIN_TIME = 1020800000"

text \<open>
  A candle as the client library hands it over: its time as a string in the format the
  connection was opened with, the price classes that were asked for, and the volume.
\<close>

record candlestick_data =
  cd_o :: string
  cd_h :: string
  cd_l :: string
  cd_c :: string

record candlestick =
  time :: string
  ask :: "candlestick_data option"
  bid :: "candlestick_data option"
  mid :: "candlestick_data option"
  volume :: int

text \<open>
  An emitted candle is a dictionary. Its keys keep the order of insertion, which is the
  order of the columns of the output file, so it is an association list. Assigning to a
  key that is present replaces the value in place; a new key goes to the end. Reading a
  key that is absent raises \<open>KeyError\<close>.
\<close>

type_synonym candle = "(string \<times> pyval) list"

fun setitem :: "candle \<Rightarrow> string \<Rightarrow> pyval \<Rightarrow> candle" where
  "setitem [] k v = [(k, v)]"
| "setitem (p # ps) k v = (if fst p = k then (k, v) # ps else p # setitem ps k v)"

definition getitem :: "candle \<Rightarrow> string \<Rightarrow> error + pyval" where
  "getitem c k = (case map_of c k of None \<Rightarrow> Inl KeyError | Some v \<Rightarrow> Inr v)"

text \<open>
  The configuration dictionary, with the keys that the downloader reads. \<open>count\<close> is
  the one key that may be absent (\<open>'count' in cfg\<close>).
\<close>

record config =
  instrument :: string
  price :: string
  granularity :: string
  smooth :: bool
  daily_alignment :: int
  alignment_timezone :: string
  weekly_alignment :: string
  from_time :: pyval
  to_time :: pyval
  count :: "int option"
  output_file :: string
  hostname :: string

text \<open>The keyword arguments of one request; \<open>count\<close> and \<open>toTime\<close> may be absent.\<close>

record kwargs =
  k_instrument :: string
  k_price :: string
  k_granularity :: string
  k_smooth :: bool
  k_includeFirst :: bool
  k_dailyAlignment :: int
  k_alignmentTimezone :: string
  k_weeklyAlignment :: string
  k_fromTime :: pyval
  k_count :: "int option"
  k_toTime :: "pyval option"

record body =
  errorMessage :: "string option"
  candles :: "candlestick list option"

record response =
  status :: int
  body :: body

text \<open>
  What one call of \<open>api.instrument.candles\<close> does: it returns a response, or raises one
  of the two connection-level exceptions, or is interrupted from the keyboard.
\<close>

datatype outcome = Response response | V20ConnectionError | V20Timeout | Interrupted

text \<open>
  The remote side is a parameter: a function from the request and its own state to the
  outcome and its next state.
\<close>

type_synonym 's api = "kwargs \<Rightarrow> 's \<Rightarrow> outcome \<times> 's"

text \<open>
  What is written to the console: a printed line, a progress bar (kept as the exact
  percentage, see \<open>progress_bar\<close>), or characters written without a newline.
\<close>

datatype out = Line string | Bar rat | Raw string

text \<open>
  The world the program acts on: the state of the remote side, the requests sent so far,
  the console, the files (a file is its rows of cells), and the paths that cannot be
  opened for writing, with the message of the error.
\<close>

record 's world =
  remote :: 's
  requests :: "kwargs list"
  stdout :: "out list"
  files :: "string \<Rightarrow> pyval list list option"
  open_fails :: "string \<Rightarrow> string option"

definition print :: "string \<Rightarrow> 's world \<Rightarrow> 's world" where
  "print s w = w\<lparr>stdout := stdout w @ [Line s]\<rparr>"

definition stdout_write :: "string \<Rightarrow> 's world \<Rightarrow> 's world" where
  "stdout_write s w = w\<lparr>stdout := stdout w @ [Raw s]\<rparr>"

section \<open>\<open>write\<close>\<close>

text \<open>The function \<open>write\<close> of the source is \<open>write_csv\<close> here, the name being taken in Isabelle.\<close>

text \<open>
  \<open>DictWriter.writerow\<close>: a key of the row that is not a field name raises
  \<open>ValueError\<close>; a field name that the row lacks is written as the empty string.
\<close>

definition writerow :: "string list \<Rightarrow> candle \<Rightarrow> error + pyval list" where
  "writerow fieldnames line =
     (if \<exists>k \<in> set (map fst line). k \<notin> set fieldnames then Inl ValueError
      else Inr (map (\<lambda>k. case map_of line k of None \<Rightarrow> PStr [] | Some v \<Rightarrow> v) fieldnames))"

fun writerows :: "string list \<Rightarrow> candle list \<Rightarrow> pyval list list \<Rightarrow> (error + unit) \<times> pyval list list" where
  "writerows fieldnames [] rows = (Inr (), rows)"
| "writerows fieldnames (line # rest) rows =
     (case writerow fieldnames line of
        Inl e \<Rightarrow> (Inl e, rows)
      | Inr r \<Rightarrow> writerows fieldnames rest (rows @ [r]))"

text \<open>
  Opening the file comes first and truncates it; \<open>candles[0]\<close> on an empty list then
  raises \<open>IndexError\<close>. The file is closed on the way out of the \<open>with\<close> block and keeps
  what was written until then.
\<close>

definition write_csv :: "string \<Rightarrow> candle list \<Rightarrow> 's world \<Rightarrow> (error + unit) \<times> 's world" where
  "write_csv name cs w =
     (case open_fails w name of
        Some msg \<Rightarrow> (Inl (IOError msg), w)
      | None \<Rightarrow>
          (case cs of
             [] \<Rightarrow> (Inl IndexError, w\<lparr>files := (files w)(name \<mapsto> [])\<rparr>)
           | first # _ \<Rightarrow>
               (let fieldnames = map fst first;
                    (r, rows) = writerows fieldnames cs [map PStr fieldnames]
                in (r, w\<lparr>files := (files w)(name \<mapsto> rows)\<rparr>))))"

section \<open>\<open>progress_bar\<close>\<close>

text \<open>
  Subtraction and comparison as Python has them on these values: integers subtract,
  integers compare with integers and strings with strings, anything else is a
  \<open>TypeError\<close>.
\<close>

fun py_sub :: "pyval \<Rightarrow> pyval \<Rightarrow> error + int" where
  "py_sub (PInt a) (PInt b) = Inr (a - b)"
| "py_sub _ _ = Inl TypeError"

fun str_le :: "string \<Rightarrow> string \<Rightarrow> bool" where
  "str_le [] _ = True"
| "str_le (a # as) [] = False"
| "str_le (a # as) (b # bs) =
     ((of_char a :: nat) < of_char b \<or> (a = b \<and> str_le as bs))"

fun py_le :: "pyval \<Rightarrow> pyval \<Rightarrow> error + bool" where
  "py_le (PInt a) (PInt b) = Inr (a \<le> b)"
| "py_le (PStr a) (PStr b) = Inr (str_le a b)"
| "py_le _ _ = Inl TypeError"

text \<open>
  The division of two integers gives the double nearest to the quotient and raises
  \<open>OverflowError\<close> when that is no finite double: when the quotient is not below
  \<open>2 ^ 1024 - 2 ^ 970\<close> in absolute value, half a unit in the last place above the
  largest double.
\<close>

definition float_overflow :: "rat \<Rightarrow> bool" where
  "float_overflow q = (2 ^ 1024 - 2 ^ 970 \<le> \<bar>q\<bar>)"

text \<open>
  The percentage is \<open>(current - start) / (end - start) * 100\<close>; the division raises
  \<open>ZeroDivisionError\<close> when \<open>end = start\<close>, and \<open>OverflowError\<close> when the quotient is
  too large for a double. The source goes on in binary floating point and renders the
  percentage as bar characters and one decimal; the model returns the exact percentage
  and leaves the rendering out.
\<close>

definition progress_bar :: "pyval \<Rightarrow> pyval \<Rightarrow> pyval \<Rightarrow> error + rat" where
  "progress_bar start current end' =
     (case py_sub current start of
        Inl e \<Rightarrow> Inl e
      | Inr n \<Rightarrow>
          (case py_sub end' start of
             Inl e \<Rightarrow> Inl e
           | Inr d \<Rightarrow>
               if d = 0 then Inl ZeroDivisionError
               else if float_overflow (of_int n / of_int d) then Inl OverflowError
               else Inr (of_int n / of_int d * 100)))"

section \<open>\<open>download_batch\<close>\<close>

definition batch_kwargs :: "config \<Rightarrow> kwargs" where
  "batch_kwargs cfg =
     \<lparr>k_instrument = instrument cfg, k_price = price cfg, k_granularity = granularity cfg,
      k_smooth = smooth cfg, k_includeFirst = False, k_dailyAlignment = daily_alignment cfg,
      k_alignmentTimezone = alignment_timezone cfg, k_weeklyAlignment = weekly_alignment cfg,
      k_fromTime = from_time cfg,
      k_count = count cfg,
      k_toTime = (case count cfg of Some n \<Rightarrow> None | None \<Rightarrow> Some (to_time cfg))\<rparr>"

definition call :: "'s api \<Rightarrow> kwargs \<Rightarrow> 's world \<Rightarrow> outcome \<times> 's world" where
  "call api kw w =
     (case api kw (remote w) of
        (r, s) \<Rightarrow> (r, w\<lparr>remote := s, requests := requests w @ [kw]\<rparr>))"

text \<open>
  The \<open>for\<close> loop over \<open>range(0, 5)\<close>: the argument counts the attempts that are left,
  and none left is the loop's \<open>else\<close> branch.
\<close>

fun retry :: "nat \<Rightarrow> 's api \<Rightarrow> kwargs \<Rightarrow> 's world \<Rightarrow> (error + response) \<times> 's world" where
  "retry 0 api kw w = (Inl ConnectionError, w)"
| "retry (Suc n) api kw w =
     (case call api kw w of
        (Response r, w') \<Rightarrow> (Inr r, w')
      | (V20ConnectionError, w') \<Rightarrow> retry n api kw w'
      | (V20Timeout, w') \<Rightarrow> retry n api kw w'
      | (Interrupted, w') \<Rightarrow> (Inl KeyboardInterrupt, w'))"

text \<open>
  The four fields of one price class, under the given suffix. Reading a price class
  that the candle does not carry is an \<open>AttributeError\<close> on \<open>None\<close>.
\<close>

definition ohlc :: "string \<Rightarrow> candlestick_data option \<Rightarrow> candle \<Rightarrow> error + candle" where
  "ohlc suffix d c =
     (case d of
        None \<Rightarrow> Inl AttributeError
      | Some p \<Rightarrow>
          Inr (setitem (setitem (setitem (setitem c
                 (''open'' @ suffix) (PStr (cd_o p)))
                 (''high'' @ suffix) (PStr (cd_h p)))
                 (''low'' @ suffix) (PStr (cd_l p)))
                 (''close'' @ suffix) (PStr (cd_c p))))"

definition to_candle :: "config \<Rightarrow> candlestick \<Rightarrow> error + candle" where
  "to_candle cfg candle =
     (case (if CHR ''A'' \<in> set (price cfg)
            then ohlc ''Ask'' (ask candle) [(''time'', PStr (time_crop_fraction (time candle)))]
            else Inr [(''time'', PStr (time_crop_fraction (time candle)))]) of
        Inl e \<Rightarrow> Inl e
      | Inr c1 \<Rightarrow>
     (case (if CHR ''B'' \<in> set (price cfg) then ohlc ''Bid'' (bid candle) c1 else Inr c1) of
        Inl e \<Rightarrow> Inl e
      | Inr c2 \<Rightarrow>
     (case (if CHR ''M'' \<in> set (price cfg) then ohlc [] (mid candle) c2 else Inr c2) of
        Inl e \<Rightarrow> Inl e
      | Inr c3 \<Rightarrow> Inr (setitem c3 ''volume'' (PInt (volume candle))))))"

fun to_candles :: "config \<Rightarrow> candlestick list \<Rightarrow> error + candle list" where
  "to_candles cfg [] = Inr []"
| "to_candles cfg (candle # rest) =
     (case to_candle cfg candle of
        Inl e \<Rightarrow> Inl e
      | Inr c \<Rightarrow>
          (case to_candles cfg rest of
             Inl e \<Rightarrow> Inl e
           | Inr cs \<Rightarrow> Inr (c # cs)))"

definition max_count_message :: string where
  "max_count_message = ''Maximum value for '' @ [CHR 0x27] @ ''count'' @ [CHR 0x27] @ '' exceeded''"

definition read_response :: "config \<Rightarrow> response \<Rightarrow> error + candle list" where
  "read_response cfg r =
     (if status r \<noteq> 200 then
        (case errorMessage (body r) of
           None \<Rightarrow> Inl KeyError
         | Some error_message \<Rightarrow>
             if error_message = max_count_message then Inl MaxCountError
             else Inl (APIError error_message))
      else
        (case candles (body r) of
           None \<Rightarrow> Inl KeyError
         | Some cs \<Rightarrow> to_candles cfg cs))"

definition download_batch :: "'s api \<Rightarrow> config \<Rightarrow> 's world \<Rightarrow> (error + candle list) \<times> 's world" where
  "download_batch api cfg w =
     (case retry 5 api (batch_kwargs cfg) w of
        (Inl e, w') \<Rightarrow> (Inl e, w')
      | (Inr r, w') \<Rightarrow> (read_response cfg r, w'))"

section \<open>\<open>download\<close>\<close>

text \<open>The variables of \<open>download\<close> that live across the iterations of its loop.\<close>

record locals =
  l_result :: "candle list"
  l_from_time :: pyval
  l_is_first_batch :: bool
  l_cfg :: config

datatype flow = Raise error | Break | Continue

text \<open>\<open>time_to_unix(candle['time'])\<close>\<close>

definition candle_time :: "(int \<Rightarrow> int) \<Rightarrow> candle \<Rightarrow> error + pyval" where
  "candle_time utcoffset c =
     (case getitem c ''time'' of Inl e \<Rightarrow> Inl e | Inr v \<Rightarrow> time_to_unix utcoffset v)"

text \<open>
  The inner \<open>for\<close> loop: candles are taken from the front of the batch while their time
  is at most \<open>to_time\<close>; the first later one ends the loop.
\<close>

fun truncate_batch :: "(int \<Rightarrow> int) \<Rightarrow> pyval \<Rightarrow> candle list \<Rightarrow> error + candle list" where
  "truncate_batch utcoffset to_time' [] = Inr []"
| "truncate_batch utcoffset to_time' (candle # rest) =
     (case candle_time utcoffset candle of
        Inl e \<Rightarrow> Inl e
      | Inr last_candle_time \<Rightarrow>
          (case py_le last_candle_time to_time' of
             Inl e \<Rightarrow> Inl e
           | Inr b \<Rightarrow>
               if b then
                 (case truncate_batch utcoffset to_time' rest of
                    Inl e \<Rightarrow> Inl e
                  | Inr kept \<Rightarrow> Inr (candle # kept))
               else Inr []))"

text \<open>
  The branch on \<open>to_time\<close>: the batch is appended whole and the loop goes on, or it is
  appended up to \<open>to_time\<close> and the loop is left.
\<close>

definition extend_result ::
  "(int \<Rightarrow> int) \<Rightarrow> pyval \<Rightarrow> pyval \<Rightarrow> candle list \<Rightarrow> candle list \<Rightarrow> flow \<times> candle list" where
  "extend_result utcoffset to_time' last_candle_time batch result =
     (if to_time' \<noteq> PNone then
        (case py_le last_candle_time to_time' of
           Inl e \<Rightarrow> (Raise e, result)
         | Inr b \<Rightarrow>
             if b then (Continue, result @ batch)
             else
               (case truncate_batch utcoffset to_time' batch of
                  Inl e \<Rightarrow> (Raise e, result)
                | Inr kept \<Rightarrow> (Break, result @ kept)))
      else (Continue, result @ batch))"

definition cursor_up :: string where
  "cursor_up = [CHR 0x1B] @ ''[F''"

definition erase_line :: string where
  "erase_line = [CHR 0x1B] @ ''[K''"

text \<open>
  One pass through the loop for a batch that is not empty: the result is extended, the
  window moves to the end of the batch, the start of the progress bar is set at the
  first batch, and the bar is printed.
\<close>

definition loop_body ::
  "(int \<Rightarrow> int) \<Rightarrow> pyval \<Rightarrow> candle list \<Rightarrow> locals \<Rightarrow> 's world \<Rightarrow> flow \<times> locals \<times> 's world" where
  "loop_body utcoffset to_time' batch L w =
     (case candle_time utcoffset (last batch) of
        Inl e \<Rightarrow> (Raise e, L, w)
      | Inr last_candle_time \<Rightarrow>
          (case extend_result utcoffset to_time' last_candle_time batch (l_result L) of
             (Raise e, r) \<Rightarrow> (Raise e, L, w)
           | (Break, r) \<Rightarrow> (Break, L\<lparr>l_result := r\<rparr>, w)
           | (Continue, r) \<Rightarrow>
               (case getitem (last batch) ''time'' of
                  Inl e \<Rightarrow> (Raise e, L\<lparr>l_result := r\<rparr>, w)
                | Inr v \<Rightarrow>
                    (case (if l_is_first_batch L then candle_time utcoffset (hd batch)
                           else Inr (l_from_time L)) of
                       Inl e \<Rightarrow>
                         (Raise e, L\<lparr>l_result := r, l_cfg := (l_cfg L)\<lparr>from_time := v\<rparr>\<rparr>, w)
                     | Inr f \<Rightarrow>
                         (case progress_bar f last_candle_time to_time' of
                            Inl e \<Rightarrow>
                              (Raise e,
                               L\<lparr>l_result := r, l_from_time := f, l_is_first_batch := False,
                                 l_cfg := (l_cfg L)\<lparr>from_time := v\<rparr>\<rparr>, w)
                          | Inr p \<Rightarrow>
                              (Continue,
                               L\<lparr>l_result := r, l_from_time := f, l_is_first_batch := False,
                                 l_cfg := (l_cfg L)\<lparr>from_time := v\<rparr>\<rparr>,
                               stdout_write cursor_up (w\<lparr>stdout := stdout w @ [Bar p]\<rparr>)))))))"

text \<open>
  The \<open>while True\<close> loop. It has no bound of its own, so the model counts the passes
  that are left and returns \<open>None\<close> when none is.
\<close>

fun paginate ::
  "nat \<Rightarrow> (int \<Rightarrow> int) \<Rightarrow> 's api \<Rightarrow> pyval \<Rightarrow> locals \<Rightarrow> 's world
     \<Rightarrow> ((error + candle list) \<times> config \<times> 's world) option" where
  "paginate 0 utcoffset api to_time' L w = None"
| "paginate (Suc n) utcoffset api to_time' L w =
     (case download_batch api (l_cfg L) w of
        (Inl e, w1) \<Rightarrow> Some (Inl e, l_cfg L, w1)
      | (Inr batch, w1) \<Rightarrow>
          if length batch = 0 then Some (Inr (l_result L), l_cfg L, w1)
          else
            (case loop_body utcoffset to_time' batch L w1 of
               (Raise e, L', w2) \<Rightarrow> Some (Inl e, l_cfg L', w2)
             | (Break, L', w2) \<Rightarrow> Some (Inr (l_result L'), l_cfg L', w2)
             | (Continue, L', w2) \<Rightarrow> paginate n utcoffset api to_time' L' w2))"

text \<open>
  \<open>download\<close> returns the result or the exception, the configuration as it has left
  it, and the world. One batch is tried first; only its \<open>MaxCountError\<close> is caught.
\<close>

definition download ::
  "nat \<Rightarrow> (int \<Rightarrow> int) \<Rightarrow> 's api \<Rightarrow> config \<Rightarrow> 's world
     \<Rightarrow> ((error + candle list) \<times> config \<times> 's world) option" where
  "download fuel utcoffset api cfg w =
     (case download_batch api cfg w of
        (Inr result, w1) \<Rightarrow> Some (Inr result, cfg, w1)
      | (Inl e, w1) \<Rightarrow>
          if e = MaxCountError then
            paginate fuel utcoffset api (to_time cfg)
              \<lparr>l_result = [], l_from_time = from_time cfg, l_is_first_batch = True,
               l_cfg = cfg\<lparr>to_time := PNone, count := Some MAX_API_CANDLES\<rparr>\<rparr> w1
          else Some (Inl e, cfg, w1))"

section \<open>The program\<close>

text \<open>How the process ends: it returns from the script, or an exception leaves it.\<close>

datatype exit = Returned | Unhandled error

text \<open>The outer \<open>try\<close> catches \<open>FileNotFoundError\<close> and nothing else.\<close>

definition config_handler :: "error \<Rightarrow> 's world \<Rightarrow> exit \<times> 's world" where
  "config_handler e w =
     (case e of
        FileNotFoundError m \<Rightarrow> (Returned, print (''Can'' @ [CHR 0x27] @ ''t find a config.'') w)
      | _ \<Rightarrow> (Unhandled e, w))"

text \<open>
  The handlers of the inner \<open>try\<close>, in their order. \<open>except IOError\<close> takes the whole
  \<open>OSError\<close> family; what no handler takes goes on to the outer \<open>try\<close>.
\<close>

definition handler :: "config \<Rightarrow> error \<Rightarrow> 's world \<Rightarrow> exit \<times> 's world" where
  "handler cfg e w =
     (case e of
        APIError m \<Rightarrow> (Returned, print (''API error occured: '' @ m) w)
      | IOError m \<Rightarrow>
          (Returned, print (''Can'' @ [CHR 0x27] @ ''t write to an output csv file: '' @ m) w)
      | FileNotFoundError m \<Rightarrow>
          (Returned, print (''Can'' @ [CHR 0x27] @ ''t write to an output csv file: '' @ m) w)
      | KeyError \<Rightarrow> (Returned, print ''No results.'' w)
      | ConnectionError \<Rightarrow> (Returned, print (''Could not connect to '' @ hostname cfg @ ''.'') w)
      | KeyboardInterrupt \<Rightarrow>
          (Returned, print ([CHR 0x0A] @ ''Keyboard interrupt. Exiting without saving.'') w)
      | _ \<Rightarrow> config_handler e w)"

text \<open>
  The defaults and the conversion of the two times to UNIX time, before the download
  starts.
\<close>

definition prepare :: "(int \<Rightarrow> int) \<Rightarrow> int \<Rightarrow> config \<Rightarrow> error + config" where
  "prepare utcoffset now cfg0 =
     (let cfg1 = (if from_time cfg0 = PNone then cfg0\<lparr>from_time := PInt MIN_TIME\<rparr> else cfg0);
          cfg2 = (if to_time cfg1 = PNone then cfg1\<lparr>to_time := PInt now\<rparr> else cfg1)
      in
      case time_to_unix utcoffset (from_time cfg2) of
        Inl e \<Rightarrow> Inl e
      | Inr f \<Rightarrow>
          (case time_to_unix utcoffset (to_time cfg2) of
             Inl e \<Rightarrow> Inl e
           | Inr t \<Rightarrow> Inr (cfg2\<lparr>from_time := f, to_time := t\<rparr>)))"

text \<open>
  The script. \<open>loaded\<close> is what \<open>run_path\<close> gives for the configuration file and
  \<open>now\<close> is \<open>int(time())\<close>.
\<close>

definition main ::
  "nat \<Rightarrow> (int \<Rightarrow> int) \<Rightarrow> 's api \<Rightarrow> error + config \<Rightarrow> int \<Rightarrow> 's world
     \<Rightarrow> (exit \<times> 's world) option" where
  "main fuel utcoffset api loaded now w =
     (case loaded of
        Inl e \<Rightarrow> Some (config_handler e w)
      | Inr cfg0 \<Rightarrow>
          (case prepare utcoffset now cfg0 of
             Inl e \<Rightarrow> Some (config_handler e w)
           | Inr cfg \<Rightarrow>
               (case download fuel utcoffset api cfg (print ''Downloading candles...'' w) of
                  None \<Rightarrow> None
                | Some (Inl e, cfg', w1) \<Rightarrow> Some (handler cfg' e w1)
                | Some (Inr cs, cfg', w1) \<Rightarrow>
                    (case write_csv (output_file cfg') cs
                            (print ''Writing to csv file...'' (stdout_write erase_line w1)) of
                       (Inl e, w2) \<Rightarrow> Some (handler cfg' e w2)
                     | (Inr u, w2) \<Rightarrow> Some (Returned, print ''Done.'' w2)))))"

section \<open>Timestamps and a reference data source\<close>

text \<open>The UNIX time of an emitted candle and of a candle of the remote side, when it has one.\<close>

definition unix :: "(int \<Rightarrow> int) \<Rightarrow> candle \<Rightarrow> int option" where
  "unix utcoffset c =
     (case candle_time utcoffset c of Inr (PInt n) \<Rightarrow> Some n | _ \<Rightarrow> None)"

definition stamp :: "(int \<Rightarrow> int) \<Rightarrow> candlestick \<Rightarrow> int option" where
  "stamp utcoffset k =
     (case time_to_unix utcoffset (PStr (time_crop_fraction (time k))) of
        Inr (PInt n) \<Rightarrow> Some n
      | _ \<Rightarrow> None)"

text \<open>
  A batch is in time order when every candle has a UNIX time and the times do not
  decrease; the order is strict when they increase.
\<close>

definition nondecreasing :: "int option list \<Rightarrow> bool" where
  "nondecreasing xs = (list_all (\<lambda>x. x \<noteq> None) xs \<and> sorted (map the xs))"

definition increasing :: "int option list \<Rightarrow> bool" where
  "increasing xs = (list_all (\<lambda>x. x \<noteq> None) xs \<and> sorted_wrt (<) (map the xs))"

text \<open>
  What the batch fetcher expects of the remote side (sections 4.1 and 6 of the
  specification): the candles of a successful response come oldest first, and none is
  later than the \<open>toTime\<close> of the request when the request has one.
\<close>

definition well_behaved :: "(int \<Rightarrow> int) \<Rightarrow> 's api \<Rightarrow> bool" where
  "well_behaved utcoffset api =
     (\<forall>kw s r s' ks.
        api kw s = (Response r, s') \<and> status r = 200 \<and> candles (body r) = Some ks
        \<longrightarrow> nondecreasing (map (stamp utcoffset) ks)
            \<and> (\<forall>t. k_toTime kw = Some (PInt t)
                  \<longrightarrow> (\<forall>k \<in> set ks. \<exists>u. stamp utcoffset k = Some u \<and> u \<le> t)))"

text \<open>
  A reference remote side over a fixed list of candles, as the specification describes
  the API. A request is answered with the candles later than \<open>fromTime\<close> (or not
  earlier, with \<open>includeFirst\<close>) and not later than \<open>toTime\<close>, cut to \<open>count\<close> candles
  when a count is given. It reads a time value as \<open>time_to_unix\<close> does. Which requests
  it refuses as too large is the parameter \<open>too_many\<close>.
\<close>

definition later :: "(int \<Rightarrow> int) \<Rightarrow> bool \<Rightarrow> pyval \<Rightarrow> candlestick \<Rightarrow> bool" where
  "later utcoffset include_first v k =
     (case time_to_unix utcoffset v of
        Inr (PInt f) \<Rightarrow>
          (case stamp utcoffset k of
             Some u \<Rightarrow> if include_first then f \<le> u else f < u
           | None \<Rightarrow> False)
      | _ \<Rightarrow> False)"

definition not_after :: "(int \<Rightarrow> int) \<Rightarrow> pyval option \<Rightarrow> candlestick \<Rightarrow> bool" where
  "not_after utcoffset v k =
     (case v of
        None \<Rightarrow> True
      | Some PNone \<Rightarrow> True
      | Some x \<Rightarrow>
          (case time_to_unix utcoffset x of
             Inr (PInt t) \<Rightarrow> (case stamp utcoffset k of Some u \<Rightarrow> u \<le> t | None \<Rightarrow> False)
           | _ \<Rightarrow> False))"

definition window :: "(int \<Rightarrow> int) \<Rightarrow> candlestick list \<Rightarrow> kwargs \<Rightarrow> candlestick list" where
  "window utcoffset src kw =
     (case k_count kw of
        Some n \<Rightarrow>
          take (nat n)
            [k \<leftarrow> src. later utcoffset (k_includeFirst kw) (k_fromTime kw) k
                        \<and> not_after utcoffset (k_toTime kw) k]
      | None \<Rightarrow>
          [k \<leftarrow> src. later utcoffset (k_includeFirst kw) (k_fromTime kw) k
                      \<and> not_after utcoffset (k_toTime kw) k])"

text \<open>
  The single, unbounded fetch of the specification's refinement property: everything
  the source has after the start time, with no count and no end time.
\<close>

definition unbounded_fetch :: "(int \<Rightarrow> int) \<Rightarrow> candlestick list \<Rightarrow> pyval \<Rightarrow> candlestick list" where
  "unbounded_fetch utcoffset src from_time' = [k \<leftarrow> src. later utcoffset False from_time' k]"

definition server ::
  "(int \<Rightarrow> int) \<Rightarrow> candlestick list \<Rightarrow> (kwargs \<Rightarrow> bool) \<Rightarrow> unit api" where
  "server utcoffset src too_many kw s =
     (if too_many kw then
        (Response \<lparr>status = 400,
                   body = \<lparr>errorMessage = Some max_count_message, candles = None\<rparr>\<rparr>, s)
      else
        (Response \<lparr>status = 200,
                   body = \<lparr>errorMessage = None, candles = Some (window utcoffset src kw)\<rparr>\<rparr>, s))"

text \<open>
  The percentage of the progress indicator as the specification words it: the last
  candle time less the effective start time, over the requested end time less the
  effective start time, times 100.
\<close>

definition percentage :: "int \<Rightarrow> int \<Rightarrow> int \<Rightarrow> rat" where
  "percentage start current end' = of_int (current - start) / of_int (end' - start) * 100"

text \<open>The outcomes of sending the same request \<open>n\<close> times in a row.\<close>

fun outcomes :: "nat \<Rightarrow> 's api \<Rightarrow> kwargs \<Rightarrow> 's \<Rightarrow> outcome list" where
  "outcomes 0 api kw s = []"
| "outcomes (Suc n) api kw s = (case api kw s of (r, s') \<Rightarrow> r # outcomes n api kw s')"

definition connection_failure :: "outcome \<Rightarrow> bool" where
  "connection_failure r = (r = V20ConnectionError \<or> r = V20Timeout)"


section \<open>Concrete inputs\<close>

text \<open>A remote side that plays a fixed list of outcomes and times out when the list is used up.\<close>

fun scripted :: "outcome list api" where
  "scripted kw [] = (V20Timeout, [])"
| "scripted kw (r # rest) = (r, rest)"

definition ok :: "candlestick list \<Rightarrow> outcome" where
  "ok ks = Response \<lparr>status = 200, body = \<lparr>errorMessage = None, candles = Some ks\<rparr>\<rparr>"

definition refused :: "string \<Rightarrow> outcome" where
  "refused m = Response \<lparr>status = 400, body = \<lparr>errorMessage = Some m, candles = None\<rparr>\<rparr>"

definition quote :: "string \<Rightarrow> candlestick" where
  "quote t =
     \<lparr>time = t, ask = None, bid = None,
      mid = Some \<lparr>cd_o = ''1.1'', cd_h = ''1.3'', cd_l = ''1.0'', cd_c = ''1.2''\<rparr>, volume = 7\<rparr>"

definition cfg0 :: config where
  "cfg0 =
     \<lparr>instrument = ''EUR_USD'', price = ''M'', granularity = ''S5'', smooth = False,
      daily_alignment = 0, alignment_timezone = ''UTC'', weekly_alignment = ''Friday'',
      from_time = PInt 0, to_time = PInt 100, count = None, output_file = ''out.csv'',
      hostname = ''api-fxtrade.oanda.com''\<rparr>"

definition world0 :: "'s \<Rightarrow> 's world" where
  "world0 s =
     \<lparr>remote = s, requests = [], stdout = [], files = (\<lambda>name. None), open_fails = (\<lambda>name. None)\<rparr>"

text \<open>The candle that \<open>download_batch\<close> emits for \<open>quote\<close> under \<open>cfg0\<close>, with the given time.\<close>

definition emitted :: "string \<Rightarrow> candle" where
  "emitted s =
     [(''time'', PStr s), (''open'', PStr ''1.1''), (''high'', PStr ''1.3''),
      (''low'', PStr ''1.0''), (''close'', PStr ''1.2''), (''volume'', PInt 7)]"

text \<open>
  A reference remote side that refuses every request made without a count, as too large
  a span, and a source of three candles at the times 50, 100 and 150.
\<close>

definition spans :: "kwargs \<Rightarrow> bool" where
  "spans kw = (k_count kw = None)"

definition src3 :: "candlestick list" where
  "src3 = [quote ''50.000000000'', quote ''100.000000000'', quote ''150.000000000'']"

text \<open>
  A host that is one hour east of UTC all year, and a request from the default start
  time to 2019-02-20T09:00:00 UTC, the two times being UNIX integers.
\<close>

definition east :: "int \<Rightarrow> int" where
  "east = (\<lambda>u. 3600)"

definition cfg1 :: config where
  "cfg1 = cfg0\<lparr>from_time := PInt MIN_TIME, to_time := PInt 1550653200\<rparr>"


section \<open>Time parsing\<close>

lemma digit_not_space: "is_digit c \<Longrightarrow> \<not> is_space c"
  by (auto simp: is_digit_def is_space_def)

lemma digit_not_sign: "is_digit c \<Longrightarrow> c \<noteq> CHR ''-'' \<and> c \<noteq> CHR ''+''"
  by (auto simp: is_digit_def)

lemma dropWhile_hd_id: "s \<noteq> [] \<Longrightarrow> \<not> P (hd s) \<Longrightarrow> dropWhile P s = s"
  by (cases s) simp_all

lemma strip_digits:
  assumes "s \<noteq> []" "\<forall>c \<in> set s. is_digit c"
  shows "strip s = s"
proof -
  from assms have a: "\<not> is_space (hd s)" and b: "\<not> is_space (last s)"
    by (simp_all add: digit_not_space)
  have 1: "dropWhile is_space s = s"
    using assms(1) a by (rule dropWhile_hd_id)
  have "hd (rev s) = last s" using assms(1) by (simp add: hd_rev)
  with b assms(1) have 2: "dropWhile is_space (rev s) = rev s"
    by (intro dropWhile_hd_id) simp_all
  show ?thesis by (simp add: strip_def 1 2)
qed

lemma digits_val_digits:
  "\<forall>c \<in> set s. is_digit c \<Longrightarrow>
     digits_val acc s = Some (foldl (\<lambda>a c. 10 * a + digit_val c) acc s)"
  by (induction acc s rule: digits_val.induct) auto

lemma py_int_digits:
  assumes "s \<noteq> []" "\<forall>c \<in> set s. is_digit c" "length s \<le> max_str_digits"
  shows "py_int s = Some (int (decimal s))"
proof -
  obtain c rest where s: "s = c # rest" using assms(1) by (cases s) auto
  with assms(2) have c: "is_digit c" by simp
  from assms(2) have "filter is_digit s = s" by (simp add: filter_id_conv)
  with assms(3) have "length (filter is_digit s) \<le> max_str_digits" by simp
  then have "unsigned_int s = Some (decimal s)"
    using digits_val_digits [OF assms(2), of 0] c
    by (simp add: unsigned_int_def decimal_def s del: filter.simps)
  then show ?thesis
    using strip_digits [OF assms(1,2)] digit_not_sign [OF c] by (simp add: py_int_def s)
qed

text \<open>A string of digits has no hyphen after its first four characters, so neither format matches.\<close>

lemma parse_ymd_digits:
  assumes "\<forall>c \<in> set s. is_digit c"
  shows "parse_ymd s = None"
proof (cases "year_field s")
  case None
  then show ?thesis by (simp add: parse_ymd_def)
next
  case (Some r)
  obtain y s1 where r: "r = (y, s1)" by (cases r)
  from Some r obtain a b c d where "s = a # b # c # d # s1"
    by (cases s rule: year_field.cases) (auto split: if_splits)
  with assms have "\<forall>c \<in> set s1. is_digit c" by simp
  then have "literal ''-'' s1 = None"
    by (cases s1) (auto simp: is_digit_def)
  with Some r show ?thesis by (simp add: parse_ymd_def)
qed

text \<open>
  A non-empty string of at most 4300 decimal digits is returned as the integer it
  denotes, whatever the zone of the host.
\<close>

lemma time_to_unix_digits:
  assumes "s \<noteq> []" "\<forall>c \<in> set s. is_digit c" "length s \<le> max_str_digits"
  shows "time_to_unix utcoffset (PStr s) = Inr (PInt (int (decimal s)))"
  using py_int_digits [OF assms] parse_ymd_digits [OF assms(2)]
  by (simp add: strptime_datetime_def strptime_date_def convert_def)

text \<open>A string of more than 4300 digits is refused by \<open>int\<close>.\<close>

lemma time_to_unix_long:
  assumes "\<forall>c \<in> set s. is_digit c" "max_str_digits < length s"
  shows "time_to_unix utcoffset (PStr s) = Inl ValueError"
proof -
  from assms(2) have ne: "s \<noteq> []" by auto
  then obtain c rest where s: "s = c # rest" by (cases s) auto
  with assms(1) have c: "is_digit c" by simp
  from assms(1) have "filter is_digit s = s" by (simp add: filter_id_conv)
  with assms(2) have "\<not> length (filter is_digit s) \<le> max_str_digits" by simp
  then have "unsigned_int s = None"
    by (simp add: unsigned_int_def s del: filter.simps)
  then have "py_int s = None"
    using strip_digits [OF ne assms(1)] digit_not_sign [OF c] by (simp add: py_int_def s)
  then show ?thesis
    using parse_ymd_digits [OF assms(1)]
    by (simp add: strptime_datetime_def strptime_date_def convert_def)
qed

lemma digit_simps:
  "is_digit CHR ''0''" "is_digit CHR ''1''" "is_digit CHR ''2''" "is_digit CHR ''3''"
  "is_digit CHR ''4''" "is_digit CHR ''5''" "is_digit CHR ''6''" "is_digit CHR ''7''"
  "is_digit CHR ''8''" "is_digit CHR ''9''"
  "\<not> is_digit CHR ''-''" "\<not> is_digit CHR '':''" "\<not> is_digit CHR ''T''"
  "\<not> is_digit CHR ''.''" "\<not> is_digit CHR ''Z''"
  by (simp_all add: is_digit_def)

lemma digit_val_simps:
  "digit_val CHR ''0'' = 0" "digit_val CHR ''1'' = 1" "digit_val CHR ''2'' = 2"
  "digit_val CHR ''3'' = 3" "digit_val CHR ''4'' = 4" "digit_val CHR ''5'' = 5"
  "digit_val CHR ''6'' = 6" "digit_val CHR ''7'' = 7" "digit_val CHR ''8'' = 8"
  "digit_val CHR ''9'' = 9"
  by (simp_all add: digit_val_def)

lemmas parse_defs = strptime_datetime_def strptime_date_def parse_ymd_def parse_hms_def
  checked_def valid_civil_def days_in_month_def is_leap_def digit_simps digit_val_simps

lemmas stamp_defs = wall_seconds_def toordinal_def days_before_year_def days_before_month_def
  days_in_month_def is_leap_def upt_rec

text \<open>The two bounds of \<open>local_seconds\<close> are the first and the last second of the calendar.\<close>

lemma calendar_bounds:
  "wall_seconds \<lparr>c_year = 1, c_month = 1, c_day = 1, c_hour = 0, c_minute = 0, c_second = 0\<rparr>
     = min_seconds"
  "wall_seconds \<lparr>c_year = 9999, c_month = 12, c_day = 31, c_hour = 23, c_minute = 59,
                 c_second = 59\<rparr> = max_seconds"
  by (simp_all add: stamp_defs min_seconds_def max_seconds_def)

text \<open>
  On a host whose offset from UTC never changes, a wall-clock reading \<open>t\<close> is the
  instant \<open>t - a\<close>, provided that the readings \<open>t\<close>, \<open>t + a\<close> and the one a day before
  \<open>t\<close> are all in the calendar.
\<close>

lemma local_to_seconds_fixed:
  assumes "min_seconds \<le> t - 86400" "t \<le> max_seconds"
    and "min_seconds \<le> t + a" "t + a \<le> max_seconds"
  shows "local_to_seconds (\<lambda>u. a) t = Some (t - a)"
  using assms by (simp add: local_to_seconds_def local_seconds_def Let_def)

text \<open>The first day of the calendar has no timestamp: the look a day earlier leaves the calendar.\<close>

lemma timestamp_first_day:
  "timestamp (\<lambda>u. 0)
     \<lparr>c_year = 1, c_month = 1, c_day = 1, c_hour = 0, c_minute = 0, c_second = 0\<rparr> = None"
  unfolding timestamp_def calendar_bounds(1)
  by (simp add: local_to_seconds_def local_seconds_def Let_def min_seconds_def max_seconds_def)

lemma time_to_unix_first_day:
  "time_to_unix (\<lambda>u. 0) (PStr ''0001-01-01'') = Inl ValueError"
proof -
  have 1: "strptime_datetime ''0001-01-01'' = None"
    by (simp add: parse_defs)
  have 2: "strptime_date ''0001-01-01'' =
     Some \<lparr>c_year = 1, c_month = 1, c_day = 1, c_hour = 0, c_minute = 0, c_second = 0\<rparr>"
    by (simp add: parse_defs)
  have 3: "py_int ''0001-01-01'' = None"
    by (simp add: py_int_def strip_def is_space_def unsigned_int_def digit_simps
          max_str_digits_def)
  show ?thesis
    unfolding time_to_unix.simps convert_def 1 2 3 option.case timestamp_first_day
    by simp
qed

lemma crop_example:
  "time_crop_fraction ''2019-02-20T09:00:00.000000000Z'' = ''2019-02-20T09:00:00''"
  by simp

lemma strptime_datetime_example:
  "strptime_datetime ''2019-02-20T09:00:00'' =
     Some \<lparr>c_year = 2019, c_month = 2, c_day = 20, c_hour = 9, c_minute = 0, c_second = 0\<rparr>"
  by (simp add: parse_defs)

lemma wall_seconds_example:
  "wall_seconds \<lparr>c_year = 2019, c_month = 2, c_day = 20, c_hour = 9, c_minute = 0, c_second = 0\<rparr>
     = 1550653200"
  by (simp add: stamp_defs)

lemma strptime_date_example:
  "strptime_datetime ''2019-02-20'' = None \<and>
   strptime_date ''2019-02-20'' =
     Some \<lparr>c_year = 2019, c_month = 2, c_day = 20, c_hour = 0, c_minute = 0, c_second = 0\<rparr>"
  by (simp add: parse_defs)

lemma wall_seconds_midnight:
  "wall_seconds \<lparr>c_year = 2019, c_month = 2, c_day = 20, c_hour = 0, c_minute = 0, c_second = 0\<rparr>
     = 1550620800"
  by (simp add: stamp_defs)

lemma decimal_example: "decimal ''1550653200'' = 1550653200"
  by (simp add: decimal_def digit_val_simps)

text \<open>
  The two strings of the specification on a host whose offset from UTC is always \<open>a\<close>
  seconds, at most a day either way: the cropped candle time gives 1550653200 less
  \<open>a\<close>, and the bare date gives local midnight, 1550620800 less \<open>a\<close>.
\<close>

lemma time_to_unix_fixed_offset:
  assumes "- 86400 \<le> a" "a \<le> 86400"
  shows "time_to_unix (\<lambda>u. a) (PStr (time_crop_fraction ''2019-02-20T09:00:00.000000000Z''))
           = Inr (PInt (1550653200 - a))"
    and "time_to_unix (\<lambda>u. a) (PStr ''2019-02-20'') = Inr (PInt (1550620800 - a))"
proof -
  have 1: "local_to_seconds (\<lambda>u. a) 1550653200 = Some (1550653200 - a)"
    using assms by (intro local_to_seconds_fixed) (simp_all add: min_seconds_def max_seconds_def)
  have 2: "local_to_seconds (\<lambda>u. a) 1550620800 = Some (1550620800 - a)"
    using assms by (intro local_to_seconds_fixed) (simp_all add: min_seconds_def max_seconds_def)
  show "time_to_unix (\<lambda>u. a) (PStr (time_crop_fraction ''2019-02-20T09:00:00.000000000Z''))
           = Inr (PInt (1550653200 - a))"
    by (simp add: crop_example strptime_datetime_example wall_seconds_example convert_def
          timestamp_def 1)
  show "time_to_unix (\<lambda>u. a) (PStr ''2019-02-20'') = Inr (PInt (1550620800 - a))"
    by (simp add: strptime_date_example wall_seconds_midnight convert_def timestamp_def 2)
qed

text \<open>
  On a host that runs in UTC the three examples of the specification hold: the cropped
  candle time gives 1550653200, the bare date gives midnight of that day, and a string
  of digits gives its integer.
\<close>

lemma time_to_unix_utc_examples:
  "time_to_unix (\<lambda>u. 0) (PStr (time_crop_fraction ''2019-02-20T09:00:00.000000000Z''))
     = Inr (PInt 1550653200)"
  "time_to_unix (\<lambda>u. 0) (PStr ''2019-02-20'') = Inr (PInt 1550620800)"
  "time_to_unix (\<lambda>u. 0) (PStr ''1550653200'') = Inr (PInt 1550653200)"
proof -
  show "time_to_unix (\<lambda>u. 0) (PStr (time_crop_fraction ''2019-02-20T09:00:00.000000000Z''))
     = Inr (PInt 1550653200)"
    using time_to_unix_fixed_offset(1) [of 0] by simp
  show "time_to_unix (\<lambda>u. 0) (PStr ''2019-02-20'') = Inr (PInt 1550620800)"
    using time_to_unix_fixed_offset(2) [of 0] by simp
  have "time_to_unix (\<lambda>u. 0) (PStr ''1550653200'') = Inr (PInt (int (decimal ''1550653200'')))"
    by (rule time_to_unix_digits) (simp_all add: digit_simps max_str_digits_def)
  then show "time_to_unix (\<lambda>u. 0) (PStr ''1550653200'') = Inr (PInt 1550653200)"
    by (simp only: decimal_example) simp
qed

text \<open>
  Claim C5 does not hold of the code on a host whose zone is not UTC. The candle time
  \<open>"2019-02-20T09:00:00.000000000Z"\<close> is a time in UTC, the instant 1550653200.
  \<open>time_crop_fraction\<close> removes the fraction together with the \<open>Z\<close>, and \<open>time_to_unix\<close>
  reads what is left as a wall-clock time of the host: on a host one hour east of UTC
  it returns 1550649600, an hour before the instant that the string denotes.
\<close>

theorem time_to_unix_local_zone:
  "time_to_unix (\<lambda>u. 3600) (PStr (time_crop_fraction ''2019-02-20T09:00:00.000000000Z''))
     = Inr (PInt 1550649600)"
proof -
  have "local_to_seconds (\<lambda>u. 3600) 1550653200 = Some (1550653200 - 3600)"
    by (intro local_to_seconds_fixed) (simp_all add: min_seconds_def max_seconds_def)
  then show ?thesis
    by (simp add: crop_example strptime_datetime_example wall_seconds_example convert_def
          timestamp_def)
qed

section \<open>The retry loop of a batch call\<close>

lemma retry_ConnectionError:
  "fst (retry n api kw w) = Inl ConnectionError
     \<longleftrightarrow> list_all connection_failure (outcomes n api kw (remote w))"
proof (induction n arbitrary: w)
  case 0
  show ?case by simp
next
  case (Suc n)
  obtain r s where a: "api kw (remote w) = (r, s)" by (cases "api kw (remote w)")
  show ?case
    using Suc [of "w\<lparr>remote := s, requests := requests w @ [kw]\<rparr>"]
    by (cases r) (simp_all add: call_def a connection_failure_def)
qed

lemma retry_requests:
  "requests (snd (retry n api kw w)) =
     requests w @ replicate (min n (Suc (length (takeWhile connection_failure
        (outcomes n api kw (remote w)))))) kw"
proof (induction n arbitrary: w)
  case 0
  show ?case by simp
next
  case (Suc n)
  obtain r s where a: "api kw (remote w) = (r, s)" by (cases "api kw (remote w)")
  show ?case
    using Suc [of "w\<lparr>remote := s, requests := requests w @ [kw]\<rparr>"]
    by (cases r) (simp_all add: call_def a connection_failure_def replicate_append_same)
qed

lemma retry_first_success:
  "find (\<lambda>r. \<not> connection_failure r) (outcomes n api kw (remote w)) = Some (Response r)
     \<Longrightarrow> fst (retry n api kw w) = Inr r"
proof (induction n arbitrary: w)
  case 0
  then show ?case by simp
next
  case (Suc n)
  obtain x s where a: "api kw (remote w) = (x, s)" by (cases "api kw (remote w)")
  show ?case
    using Suc.prems Suc.IH [of "w\<lparr>remote := s, requests := requests w @ [kw]\<rparr>"]
    by (cases x) (simp_all add: call_def a connection_failure_def)
qed

lemma retry_unchanged:
  "stdout (snd (retry n api kw w)) = stdout w
   \<and> files (snd (retry n api kw w)) = files w
   \<and> open_fails (snd (retry n api kw w)) = open_fails w"
proof (induction n arbitrary: w)
  case 0
  show ?case by simp
next
  case (Suc n)
  obtain x s where a: "api kw (remote w) = (x, s)" by (cases "api kw (remote w)")
  show ?case
    using Suc [of "w\<lparr>remote := s, requests := requests w @ [kw]\<rparr>"]
    by (cases x) (simp_all add: call_def a)
qed

lemma ohlc_error: "ohlc suffix d c = Inl e \<Longrightarrow> e = AttributeError"
  by (auto simp: ohlc_def split: option.splits)

lemma to_candle_error: "to_candle cfg k = Inl e \<Longrightarrow> e = AttributeError"
  by (auto simp: to_candle_def split: sum.splits if_splits dest: ohlc_error)

lemma to_candles_error: "to_candles cfg ks = Inl e \<Longrightarrow> e = AttributeError"
  by (induction ks arbitrary: e) (auto split: sum.splits dest: to_candle_error)

lemma read_response_error:
  "read_response cfg r = Inl e \<Longrightarrow>
     e = AttributeError \<or> e = KeyError \<or> e = MaxCountError \<or> (\<exists>m. e = APIError m)"
  by (auto simp: read_response_def split: if_splits option.splits dest: to_candles_error)

lemma download_batch_retry:
  "download_batch api cfg w =
     (case fst (retry 5 api (batch_kwargs cfg) w) of
        Inl e \<Rightarrow> Inl e | Inr r \<Rightarrow> read_response cfg r,
      snd (retry 5 api (batch_kwargs cfg) w))"
  by (cases "retry 5 api (batch_kwargs cfg) w") (auto simp: download_batch_def split: sum.splits)

text \<open>
  Claim C6. A batch call sends the same request again after a timeout or a connection
  error and makes at most five attempts. It raises \<open>ConnectionError\<close> exactly when all
  five attempts fail at the connection level, and the response of the first attempt
  that does not fail so is the one that is read.
\<close>

theorem retry_policy:
  "(fst (download_batch api cfg w) = Inl ConnectionError
      \<longleftrightarrow> list_all connection_failure (outcomes 5 api (batch_kwargs cfg) (remote w)))
   \<and> requests (snd (download_batch api cfg w))
       = requests w @ replicate
           (min 5 (Suc (length (takeWhile connection_failure
              (outcomes 5 api (batch_kwargs cfg) (remote w)))))) (batch_kwargs cfg)
   \<and> (\<forall>r. find (\<lambda>x. \<not> connection_failure x) (outcomes 5 api (batch_kwargs cfg) (remote w))
            = Some (Response r)
          \<longrightarrow> fst (download_batch api cfg w) = read_response cfg r)"
proof (intro conjI allI impI)
  show "fst (download_batch api cfg w) = Inl ConnectionError
      \<longleftrightarrow> list_all connection_failure (outcomes 5 api (batch_kwargs cfg) (remote w))"
    using retry_ConnectionError [of 5 api "batch_kwargs cfg" w] read_response_error [of cfg]
    by (auto simp: download_batch_retry split: sum.splits)
next
  show "requests (snd (download_batch api cfg w))
       = requests w @ replicate
           (min 5 (Suc (length (takeWhile connection_failure
              (outcomes 5 api (batch_kwargs cfg) (remote w)))))) (batch_kwargs cfg)"
    using retry_requests [of 5 api "batch_kwargs cfg" w]
    by (simp add: download_batch_retry)
next
  fix r
  assume "find (\<lambda>x. \<not> connection_failure x) (outcomes 5 api (batch_kwargs cfg) (remote w))
            = Some (Response r)"
  from retry_first_success [OF this]
  show "fst (download_batch api cfg w) = read_response cfg r"
    by (simp add: download_batch_retry)
qed

lemma outcomes_example:
  "outcomes 5 scripted kw [V20Timeout, V20ConnectionError, ok []]
     = [V20Timeout, V20ConnectionError, ok [], V20Timeout, V20Timeout]"
  by (simp add: eval_nat_numeral)

theorem retry_policy_witness:
  "fst (download_batch scripted cfg0 (world0 [V20Timeout, V20ConnectionError, ok []])) = Inr []
   \<and> requests (snd (download_batch scripted cfg0 (world0 [V20Timeout, V20ConnectionError, ok []])))
       = [batch_kwargs cfg0, batch_kwargs cfg0, batch_kwargs cfg0]"
proof -
  let ?w = "world0 [V20Timeout, V20ConnectionError, ok []]"
  let ?r = "\<lparr>status = 200, body = \<lparr>errorMessage = None, candles = Some []\<rparr>\<rparr>"
  have os: "outcomes 5 scripted (batch_kwargs cfg0) (remote ?w)
      = [V20Timeout, V20ConnectionError, ok [], V20Timeout, V20Timeout]"
    by (simp add: world0_def outcomes_example)
  have f: "find (\<lambda>x. \<not> connection_failure x) (outcomes 5 scripted (batch_kwargs cfg0) (remote ?w))
      = Some (Response ?r)"
    unfolding os by (simp add: connection_failure_def ok_def)
  have 1: "fst (download_batch scripted cfg0 ?w) = read_response cfg0 ?r"
    using retry_policy [of scripted cfg0 ?w] f by blast
  have 2: "requests (snd (download_batch scripted cfg0 ?w))
      = requests ?w @ replicate 3 (batch_kwargs cfg0)"
    using retry_policy [of scripted cfg0 ?w]
    unfolding os by (simp add: connection_failure_def ok_def numeral_3_eq_3)
  show ?thesis
    using 1 2 by (simp add: read_response_def world0_def numeral_3_eq_3)
qed

section \<open>What a batch call and the loop leave untouched\<close>

lemma download_batch_unchanged:
  "stdout (snd (download_batch api cfg w)) = stdout w
   \<and> files (snd (download_batch api cfg w)) = files w
   \<and> open_fails (snd (download_batch api cfg w)) = open_fails w"
  using retry_unchanged [of 5 api "batch_kwargs cfg" w] by (simp add: download_batch_retry)







section \<open>The single batch\<close>

text \<open>
  Claim C3. When the first batch call does not raise \<open>MaxCountError\<close>, \<open>download\<close> is
  that one call: it returns what the call returns or raises, leaves the configuration
  as it was, and the world is the one the call left, with nothing printed.
\<close>

theorem single_batch:
  "fst (download_batch api cfg w) \<noteq> Inl MaxCountError \<Longrightarrow>
     download fuel utcoffset api cfg w
       = Some (fst (download_batch api cfg w), cfg, snd (download_batch api cfg w))
     \<and> stdout (snd (download_batch api cfg w)) = stdout w"
  using download_batch_unchanged [of api cfg w]
  by (cases "download_batch api cfg w") (auto simp: download_def split: sum.splits)


lemma download_batch_scripted:
  "remote w = Response r # rest \<Longrightarrow>
     download_batch scripted cfg w
       = (read_response cfg r, w\<lparr>remote := rest, requests := requests w @ [batch_kwargs cfg]\<rparr>)"
  by (simp add: download_batch_def eval_nat_numeral call_def)

lemma to_candle_quote: "price cfg = ''M'' \<Longrightarrow> to_candle cfg (quote t) = Inr (emitted (time_crop_fraction t))"
  by (simp add: to_candle_def quote_def ohlc_def emitted_def)

lemma read_ok_quotes:
  "price cfg = ''M'' \<Longrightarrow>
     read_response cfg \<lparr>status = 200, body = \<lparr>errorMessage = None, candles = Some (map quote ts)\<rparr>\<rparr>
       = Inr (map (\<lambda>t. emitted (time_crop_fraction t)) ts)"
  by (induction ts) (simp_all add: read_response_def to_candle_quote)

lemma read_refused:
  "read_response cfg \<lparr>status = 400, body = \<lparr>errorMessage = Some max_count_message, candles = None\<rparr>\<rparr>
       = Inl MaxCountError"
  by (simp add: read_response_def)

lemma price_cfg0: "price cfg0 = ''M''" "to_time cfg0 = PInt 100" "from_time cfg0 = PInt 0"
  "output_file cfg0 = ''out.csv''" "count cfg0 = None"
  by (simp_all add: cfg0_def)

theorem single_batch_witness:
  "download 0 (\<lambda>t. 0) scripted cfg0 (world0 [ok [quote ''100.000000000'']])
     = Some (Inr [emitted ''100''], cfg0,
             \<lparr>remote = [], requests = [batch_kwargs cfg0], stdout = [],
              files = (\<lambda>name. None), open_fails = (\<lambda>name. None)\<rparr>)"
proof -
  let ?w = "world0 [ok [quote ''100.000000000'']]"
  have b: "download_batch scripted cfg0 ?w
      = (Inr [emitted ''100''], \<lparr>remote = [], requests = [batch_kwargs cfg0], stdout = [],
              files = (\<lambda>name. None), open_fails = (\<lambda>name. None)\<rparr>)"
    using read_ok_quotes [of cfg0 "[''100.000000000'']"]
    by (subst download_batch_scripted [where rest = "[]"])
       (simp_all add: world0_def ok_def price_cfg0)
  have "fst (download_batch scripted cfg0 ?w) \<noteq> Inl MaxCountError" by (simp add: b)
  from single_batch [OF this, of 0 "\<lambda>t. 0"] show ?thesis by (simp add: b)
qed

section \<open>The progress bar\<close>

lemma unix_SomeD: "unix utcoffset c = Some n \<Longrightarrow> candle_time utcoffset c = Inr (PInt n)"
  by (auto simp: unix_def split: sum.splits pyval.splits)

lemma candle_time_getitem:
  "candle_time utcoffset c = Inr v \<Longrightarrow> \<exists>x. getitem c ''time'' = Inr x"
  by (auto simp: candle_time_def split: sum.splits)

lemma progress_bar_ints:
  "progress_bar (PInt s) (PInt c) (PInt e)
     = (if e = s then Inl ZeroDivisionError
        else if float_overflow (of_int (c - s) / of_int (e - s)) then Inl OverflowError
        else Inr (of_int (c - s) / of_int (e - s) * 100))"
  by (simp add: progress_bar_def)

text \<open>A quotient between 0 and 1 is not too large for a double.\<close>

lemma float_limit_large: "(1 :: rat) < 2 ^ 1024 - 2 ^ 970"
proof -
  have "(2 :: rat) ^ 1024 = 2 ^ 970 * 2 ^ 54"
    by (simp only: power_add [symmetric]) simp
  then have "(2 :: rat) ^ 1024 - 2 ^ 970 = 2 ^ 970 * (2 ^ 54 - 1)"
    by (simp only: right_diff_distrib mult_1_right)
  moreover have "(1 :: rat) \<le> 2 ^ 970" by (rule one_le_power) simp
  moreover have "(1 :: rat) < 2 ^ 54 - 1" by simp
  ultimately show ?thesis
    using mult_le_less_imp_less [of 1 "2 ^ 970" 1 "2 ^ 54 - 1 :: rat"] by simp
qed

lemma float_overflow_unit:
  assumes "s \<le> c" "c \<le> e" "s \<noteq> e"
  shows "\<not> float_overflow (of_int (c - s) / of_int (e - s))"
proof -
  define q :: rat where "q = of_int (c - s) / of_int (e - s)"
  from assms have pos: "(0 :: rat) < of_int (e - s)" by simp
  from assms have "(of_int (c - s) :: rat) \<le> of_int (e - s)" by simp
  with pos have "q \<le> 1" unfolding q_def by (simp add: divide_le_eq)
  moreover from assms pos have "0 \<le> q" unfolding q_def by simp
  ultimately have "\<bar>q\<bar> \<le> 1" by simp
  with float_limit_large have "\<not> 2 ^ 1024 - 2 ^ 970 \<le> \<bar>q\<bar>" by linarith
  then show ?thesis unfolding float_overflow_def q_def .
qed


text \<open>
  The first pass of the loop, when the batch ends at or before \<open>to_time\<close> and begins
  at \<open>to_time\<close>: the start of the bar is set to \<open>to_time\<close> and the division fails.
\<close>

lemma loop_body_zero_division:
  assumes "batch \<noteq> []" "l_is_first_batch L"
    and "unix utcoffset (hd batch) = Some t" "unix utcoffset (last batch) = Some l" "l \<le> t"
  shows "\<exists>L'. loop_body utcoffset (PInt t) batch L w = (Raise ZeroDivisionError, L', w)"
proof -
  from unix_SomeD [OF assms(4)] have lt: "candle_time utcoffset (last batch) = Inr (PInt l)" .
  from unix_SomeD [OF assms(3)] have ht: "candle_time utcoffset (hd batch) = Inr (PInt t)" .
  from candle_time_getitem [OF lt] obtain x where x: "getitem (last batch) ''time'' = Inr x" ..
  show ?thesis
    using assms(2,5) by (simp add: loop_body_def extend_result_def lt ht x progress_bar_ints)
qed

text \<open>
  Claim C10. \<open>progress_bar\<close> returns a bar only when \<open>end\<close> differs from \<open>start\<close>; with
  \<open>end = start\<close> it raises \<open>ZeroDivisionError\<close>, and in no other case. The downloader
  gets there: when the first batch of a paginated download begins at the requested end
  time and does not go beyond it, \<open>download\<close> ends in that error.
\<close>

theorem progress_bar_zero_division:
  "progress_bar (PInt s) (PInt c) (PInt e)
     = (if e = s then Inl ZeroDivisionError
        else if float_overflow (of_int (c - s) / of_int (e - s)) then Inl OverflowError
        else Inr (of_int (c - s) / of_int (e - s) * 100))
   \<and> (download_batch api cfg w = (Inl MaxCountError, w1) \<and> to_time cfg = PInt t
       \<and> download_batch api (cfg\<lparr>to_time := PNone, count := Some MAX_API_CANDLES\<rparr>) w1
            = (Inr batch, w2)
       \<and> batch \<noteq> [] \<and> unix utcoffset (hd batch) = Some t
       \<and> unix utcoffset (last batch) = Some l \<and> l \<le> t
      \<longrightarrow> (\<exists>cfg'. download (Suc n) utcoffset api cfg w = Some (Inl ZeroDivisionError, cfg', w2)))"
proof (intro conjI impI)
  show "progress_bar (PInt s) (PInt c) (PInt e)
     = (if e = s then Inl ZeroDivisionError
        else if float_overflow (of_int (c - s) / of_int (e - s)) then Inl OverflowError
        else Inr (of_int (c - s) / of_int (e - s) * 100))"
    by (rule progress_bar_ints)
next
  assume a: "download_batch api cfg w = (Inl MaxCountError, w1) \<and> to_time cfg = PInt t
       \<and> download_batch api (cfg\<lparr>to_time := PNone, count := Some MAX_API_CANDLES\<rparr>) w1
            = (Inr batch, w2)
       \<and> batch \<noteq> [] \<and> unix utcoffset (hd batch) = Some t
       \<and> unix utcoffset (last batch) = Some l \<and> l \<le> t"
  let ?L = "\<lparr>l_result = [], l_from_time = from_time cfg, l_is_first_batch = True,
               l_cfg = cfg\<lparr>to_time := PNone, count := Some MAX_API_CANDLES\<rparr>\<rparr>"
  from a have "\<exists>L'. loop_body utcoffset (PInt t) batch ?L w2 = (Raise ZeroDivisionError, L', w2)"
    using loop_body_zero_division [of batch ?L utcoffset t l w2] by simp
  then obtain L' where "loop_body utcoffset (PInt t) batch ?L w2 = (Raise ZeroDivisionError, L', w2)" ..
  with a show "\<exists>cfg'. download (Suc n) utcoffset api cfg w = Some (Inl ZeroDivisionError, cfg', w2)"
    by (simp add: download_def)
qed

lemma unix_emitted_digits:
  "s \<noteq> [] \<Longrightarrow> \<forall>c \<in> set s. is_digit c \<Longrightarrow> length s \<le> max_str_digits \<Longrightarrow>
     unix utcoffset (emitted s) = Some (int (decimal s))"
  by (simp add: unix_def candle_time_def getitem_def emitted_def time_to_unix_digits
        del: time_to_unix.simps)

lemma decimal_100: "decimal ''100'' = 100"
  by (simp add: decimal_def digit_val_simps)

lemma unix_emitted_100: "unix utcoffset (emitted ''100'') = Some 100"
  using unix_emitted_digits [of "''100''" utcoffset] by (simp add: decimal_100 digit_simps max_str_digits_def)

theorem progress_bar_zero_division_witness:
  "\<exists>cfg'. download 1 (\<lambda>t. 0) scripted cfg0
        (world0 [refused max_count_message, ok [quote ''100.000000000'']])
     = Some (Inl ZeroDivisionError, cfg',
             \<lparr>remote = [], requests = [batch_kwargs cfg0,
                 batch_kwargs (cfg0\<lparr>to_time := PNone, count := Some MAX_API_CANDLES\<rparr>)],
              stdout = [], files = (\<lambda>name. None), open_fails = (\<lambda>name. None)\<rparr>)"
proof -
  let ?w = "world0 [refused max_count_message, ok [quote ''100.000000000'']]"
  let ?w1 = "\<lparr>remote = [ok [quote ''100.000000000'']], requests = [batch_kwargs cfg0],
      stdout = [], files = (\<lambda>name. None), open_fails = (\<lambda>name. None)\<rparr>"
  let ?w2 = "\<lparr>remote = [], requests = [batch_kwargs cfg0,
                 batch_kwargs (cfg0\<lparr>to_time := PNone, count := Some MAX_API_CANDLES\<rparr>)],
              stdout = [], files = (\<lambda>name. None), open_fails = (\<lambda>name. None)\<rparr>"
  have 1: "download_batch scripted cfg0 ?w = (Inl MaxCountError, ?w1)"
    using download_batch_scripted [of ?w _ "[ok [quote ''100.000000000'']]" cfg0]
    by (simp add: world0_def refused_def read_refused)
  have 2: "download_batch scripted (cfg0\<lparr>to_time := PNone, count := Some MAX_API_CANDLES\<rparr>) ?w1
      = (Inr [emitted ''100''], ?w2)"
    using read_ok_quotes [of "cfg0\<lparr>to_time := PNone, count := Some MAX_API_CANDLES\<rparr>"
        "[''100.000000000'']"]
      download_batch_scripted [of ?w1 _ "[]" "cfg0\<lparr>to_time := PNone, count := Some MAX_API_CANDLES\<rparr>"]
    by (simp add: ok_def price_cfg0)
  show ?thesis
    using progress_bar_zero_division [of 0 0 0 scripted cfg0 ?w ?w1 100
        "[emitted ''100'']" ?w2 "\<lambda>t. 0" 100 0] 1 2
    by (simp add: price_cfg0 unix_emitted_100)
qed

section \<open>The handlers of the script\<close>






lemma prepare_cfg0: "prepare utcoffset now cfg0 = Inr cfg0"
  by (simp add: prepare_def cfg0_def)

lemma print_world0:
  "print s (world0 r)
     = \<lparr>remote = r, requests = [], stdout = [Line s], files = (\<lambda>name. None),
        open_fails = (\<lambda>name. None)\<rparr>"
  by (simp add: print_def world0_def)





section \<open>Aborting a download\<close>


text \<open>One pass of \<open>paginate\<close>, by what the batch call and the body of the loop give.\<close>

lemma paginate_empty:
  "download_batch api (l_cfg L) w = (Inr [], w1) \<Longrightarrow>
     paginate (Suc n) utcoffset api t L w = Some (Inr (l_result L), l_cfg L, w1)"
  by simp

lemma paginate_continue:
  "download_batch api (l_cfg L) w = (Inr batch, w1) \<Longrightarrow> batch \<noteq> [] \<Longrightarrow>
   loop_body utcoffset t batch L w1 = (Continue, L', w2) \<Longrightarrow>
     paginate (Suc n) utcoffset api t L w = paginate n utcoffset api t L' w2"
  by simp

lemma paginate_break:
  "download_batch api (l_cfg L) w = (Inr batch, w1) \<Longrightarrow> batch \<noteq> [] \<Longrightarrow>
   loop_body utcoffset t batch L w1 = (Break, L', w2) \<Longrightarrow>
     paginate (Suc n) utcoffset api t L w = Some (Inr (l_result L'), l_cfg L', w2)"
  by simp

lemma paginate_raise:
  "download_batch api (l_cfg L) w = (Inr batch, w1) \<Longrightarrow> batch \<noteq> [] \<Longrightarrow>
   loop_body utcoffset t batch L w1 = (Raise e, L', w2) \<Longrightarrow>
     paginate (Suc n) utcoffset api t L w = Some (Inl e, l_cfg L', w2)"
  by simp

text \<open>A pass of the loop that appends the whole batch and draws the bar.\<close>

lemma loop_body_continue:
  assumes "unix utcoffset (last batch) = Some l" "l \<le> t"
    and "getitem (last batch) ''time'' = Inr v"
    and "if l_is_first_batch L then unix utcoffset (hd batch) = Some s else l_from_time L = PInt s"
    and "s \<noteq> t" "\<not> float_overflow (of_int (l - s) / of_int (t - s))"
  shows "loop_body utcoffset (PInt t) batch L w
     = (Continue,
        L\<lparr>l_result := l_result L @ batch, l_from_time := PInt s, l_is_first_batch := False,
          l_cfg := (l_cfg L)\<lparr>from_time := v\<rparr>\<rparr>,
        w\<lparr>stdout := stdout w @ [Bar (of_int (l - s) / of_int (t - s) * 100), Raw cursor_up]\<rparr>)"
proof -
  from unix_SomeD [OF assms(1)] have lt: "candle_time utcoffset (last batch) = Inr (PInt l)" .
  show ?thesis
  proof (cases "l_is_first_batch L")
    case True
    with assms(4) have "unix utcoffset (hd batch) = Some s" by simp
    from unix_SomeD [OF this] have ht: "candle_time utcoffset (hd batch) = Inr (PInt s)" .
    show ?thesis
      using True assms(2,5,6)
      by (simp add: loop_body_def extend_result_def lt ht assms(3) progress_bar_ints
            stdout_write_def)
  next
    case False
    with assms(4) have "l_from_time L = PInt s" by simp
    then show ?thesis
      using False assms(2,5,6)
      by (simp add: loop_body_def extend_result_def lt assms(3) progress_bar_ints
            stdout_write_def)
  qed
qed


lemma decimal_50: "decimal ''50'' = 50"
  by (simp add: decimal_def digit_val_simps)

lemma unix_emitted_50: "unix utcoffset (emitted ''50'') = Some 50"
  using unix_emitted_digits [of "''50''" utcoffset] by (simp add: decimal_50 digit_simps max_str_digits_def)



section \<open>An empty result\<close>

text \<open>The remote side answers the span with no candle at all.\<close>

lemma download_nothing:
  "download 0 utcoffset scripted cfg0 (print ''Downloading candles...'' (world0 [ok []]))
     = Some (Inr [], cfg0,
             \<lparr>remote = [], requests = [batch_kwargs cfg0],
              stdout = [Line ''Downloading candles...''], files = (\<lambda>name. None),
              open_fails = (\<lambda>name. None)\<rparr>)"
proof -
  let ?w = "print ''Downloading candles...'' (world0 [ok []])"
  have 1: "download_batch scripted cfg0 ?w
     = (Inr [], \<lparr>remote = [], requests = [batch_kwargs cfg0],
              stdout = [Line ''Downloading candles...''], files = (\<lambda>name. None),
              open_fails = (\<lambda>name. None)\<rparr>)"
    using download_batch_scripted [of ?w _ "[]" cfg0]
    by (simp add: print_world0 ok_def read_response_def)
  show ?thesis by (simp add: download_def 1)
qed

text \<open>
  Claim C8, at the input where the remote side answers the span with an empty list of
  candles. The download returns the empty list; \<open>write\<close> opens the output file, which creates it empty, and
  \<open>candles[0]\<close> raises \<open>IndexError\<close>. The handler that prints \<open>No results.\<close> is the
  one for \<open>KeyError\<close>, so the \<open>IndexError\<close> leaves the script unhandled.
\<close>

theorem no_results_unhandled:
  "main 0 (\<lambda>t. 0) scripted (Inr cfg0) 0 (world0 [ok []])
     = Some (Unhandled IndexError,
             \<lparr>remote = [], requests = [batch_kwargs cfg0],
              stdout = [Line ''Downloading candles...'', Raw erase_line,
                        Line ''Writing to csv file...''],
              files = (\<lambda>name. None)(''out.csv'' \<mapsto> []),
              open_fails = (\<lambda>name. None)\<rparr>)"
  by (simp add: main_def prepare_cfg0 download_nothing)
     (simp add: write_csv_def price_cfg0 stdout_write_def print_def handler_def
        config_handler_def)

text \<open>The same holds for every download that returns an empty list to a writable path.\<close>

lemma main_empty_result:
  assumes "prepare utcoffset now c = Inr cfg"
    and "download fuel utcoffset api cfg (print ''Downloading candles...'' w) = Some (Inr [], cfg', w1)"
    and "open_fails w1 (output_file cfg') = None"
  shows "main fuel utcoffset api (Inr c) now w
     = Some (Unhandled IndexError,
         w1\<lparr>stdout := stdout w1 @ [Raw erase_line, Line ''Writing to csv file...''],
            files := (files w1)(output_file cfg' \<mapsto> [])\<rparr>)"
  using assms
  by (simp add: main_def write_csv_def stdout_write_def print_def handler_def config_handler_def)

section \<open>The time of an emitted candle\<close>

lemma setitem_other: "k \<noteq> k' \<Longrightarrow> map_of (setitem c k v) k' = map_of c k'"
  by (induction c) auto

lemma ohlc_time: "ohlc suffix d c = Inr c' \<Longrightarrow> map_of c' ''time'' = map_of c ''time''"
  by (auto simp: ohlc_def setitem_other split: option.splits)

lemma to_candle_time:
  assumes "to_candle cfg k = Inr c"
  shows "getitem c ''time'' = Inr (PStr (time_crop_fraction (time k)))"
proof -
  let ?c0 = "[(''time'', PStr (time_crop_fraction (time k)))]"
  from assms obtain c1 c2 c3 where
    1: "(if CHR ''A'' \<in> set (price cfg) then ohlc ''Ask'' (ask k) ?c0 else Inr ?c0) = Inr c1"
    and 2: "(if CHR ''B'' \<in> set (price cfg) then ohlc ''Bid'' (bid k) c1 else Inr c1) = Inr c2"
    and 3: "(if CHR ''M'' \<in> set (price cfg) then ohlc [] (mid k) c2 else Inr c2) = Inr c3"
    and 4: "c = setitem c3 ''volume'' (PInt (volume k))"
    by (auto simp: to_candle_def split: sum.splits)
  from 1 have "map_of c1 ''time'' = map_of ?c0 ''time''"
    by (auto split: if_splits dest: ohlc_time)
  moreover from 2 have "map_of c2 ''time'' = map_of c1 ''time''"
    by (auto split: if_splits dest: ohlc_time)
  moreover from 3 have "map_of c3 ''time'' = map_of c2 ''time''"
    by (auto split: if_splits dest: ohlc_time)
  ultimately show ?thesis
    by (simp add: 4 getitem_def setitem_other)
qed

lemma unix_to_candle: "to_candle cfg k = Inr c \<Longrightarrow> unix utcoffset c = stamp utcoffset k"
  by (simp add: unix_def stamp_def candle_time_def to_candle_time del: time_to_unix.simps)

lemma to_candles_unix:
  "to_candles cfg ks = Inr cs \<Longrightarrow> map (unix utcoffset) cs = map (stamp utcoffset) ks"
  by (induction ks arbitrary: cs) (auto split: sum.splits simp: unix_to_candle)

lemma to_candles_set:
  "to_candles cfg ks = Inr cs \<Longrightarrow> c \<in> set cs \<Longrightarrow>
     \<exists>k \<in> set ks. unix utcoffset c = stamp utcoffset k"
  by (induction ks arbitrary: cs) (auto split: sum.splits simp: unix_to_candle)

section \<open>Responses of a well-behaved remote side\<close>

lemma retry_response:
  "retry n api kw w = (Inr r, w') \<Longrightarrow> \<exists>s s'. api kw s = (Response r, s')"
proof (induction n arbitrary: w)
  case 0
  then show ?case by simp
next
  case (Suc n)
  obtain x s where a: "api kw (remote w) = (x, s)" by (cases "api kw (remote w)")
  show ?case
  proof (cases x)
    case (Response r')
    with Suc.prems a show ?thesis by (auto simp: call_def)
  next
    case V20ConnectionError
    with Suc.prems a have "retry n api kw (w\<lparr>remote := s, requests := requests w @ [kw]\<rparr>) = (Inr r, w')"
      by (simp add: call_def)
    from Suc.IH [OF this] show ?thesis .
  next
    case V20Timeout
    with Suc.prems a have "retry n api kw (w\<lparr>remote := s, requests := requests w @ [kw]\<rparr>) = (Inr r, w')"
      by (simp add: call_def)
    from Suc.IH [OF this] show ?thesis .
  next
    case Interrupted
    with Suc.prems a show ?thesis by (simp add: call_def)
  qed
qed

lemma download_batch_response:
  assumes "download_batch api cfg w = (Inr batch, w')"
  shows "\<exists>s s' r ks. api (batch_kwargs cfg) s = (Response r, s') \<and> status r = 200
           \<and> candles (body r) = Some ks \<and> to_candles cfg ks = Inr batch"
proof -
  obtain x w1 where x: "retry 5 api (batch_kwargs cfg) w = (x, w1)"
    by (cases "retry 5 api (batch_kwargs cfg) w")
  with assms obtain r where r: "x = Inr r" and rr: "read_response cfg r = Inr batch"
    by (cases x) (auto simp: download_batch_def)
  from rr obtain ks where "status r = 200" "candles (body r) = Some ks" "to_candles cfg ks = Inr batch"
    by (auto simp: read_response_def split: if_splits option.splits)
  with retry_response [of 5 api "batch_kwargs cfg" w r w1] x r show ?thesis by blast
qed

lemma well_behaved_batch:
  assumes "well_behaved utcoffset api" "download_batch api cfg w = (Inr batch, w')"
  shows "nondecreasing (map (unix utcoffset) batch)"
    and "count cfg = None \<Longrightarrow> to_time cfg = PInt t \<Longrightarrow>
           \<forall>c \<in> set batch. \<exists>u. unix utcoffset c = Some u \<and> u \<le> t"
proof -
  from download_batch_response [OF assms(2)] obtain s s' r ks where
    a: "api (batch_kwargs cfg) s = (Response r, s')" "status r = 200"
       "candles (body r) = Some ks" and tc: "to_candles cfg ks = Inr batch"
    by blast
  from assms(1) a have nd: "nondecreasing (map (stamp utcoffset) ks)"
    and tt: "\<forall>t. k_toTime (batch_kwargs cfg) = Some (PInt t)
                  \<longrightarrow> (\<forall>k \<in> set ks. \<exists>u. stamp utcoffset k = Some u \<and> u \<le> t)"
    unfolding well_behaved_def by blast+
  from nd show "nondecreasing (map (unix utcoffset) batch)"
    by (simp add: to_candles_unix [OF tc])
  assume "count cfg = None" "to_time cfg = PInt t"
  then have "k_toTime (batch_kwargs cfg) = Some (PInt t)" by (simp add: batch_kwargs_def)
  with tt have b: "\<forall>k \<in> set ks. \<exists>u. stamp utcoffset k = Some u \<and> u \<le> t" by blast
  show "\<forall>c \<in> set batch. \<exists>u. unix utcoffset c = Some u \<and> u \<le> t"
  proof
    fix c assume "c \<in> set batch"
    from to_candles_set [OF tc this, of utcoffset] b
    show "\<exists>u. unix utcoffset c = Some u \<and> u \<le> t" by auto
  qed
qed

section \<open>The end time\<close>

lemma py_le_PInt: "py_le x (PInt t) = Inr b \<Longrightarrow> \<exists>u. x = PInt u \<and> b = (u \<le> t)"
  by (cases x) simp_all

lemma unix_candle_time: "candle_time utcoffset c = Inr (PInt u) \<Longrightarrow> unix utcoffset c = Some u"
  by (simp add: unix_def)

lemma truncate_bounded:
  "truncate_batch utcoffset (PInt t) batch = Inr kept \<Longrightarrow>
     \<forall>c \<in> set kept. \<exists>u. unix utcoffset c = Some u \<and> u \<le> t"
proof (induction batch arbitrary: kept)
  case Nil
  then show ?case by simp
next
  case (Cons c rest)
  from Cons.prems obtain lct where lct: "candle_time utcoffset c = Inr lct"
    by (auto split: sum.splits)
  with Cons.prems obtain b where b: "py_le lct (PInt t) = Inr b"
    by (auto split: sum.splits)
  from py_le_PInt [OF b] obtain u where u: "lct = PInt u" "b = (u \<le> t)" by blast
  show ?case
  proof (cases b)
    case True
    with Cons.prems lct b obtain kept' where k: "truncate_batch utcoffset (PInt t) rest = Inr kept'"
      "kept = c # kept'"
      by (auto split: sum.splits)
    from unix_candle_time [of utcoffset c u] lct u True have "unix utcoffset c = Some u \<and> u \<le> t"
      by simp
    with Cons.IH [OF k(1)] k(2) show ?thesis by auto
  next
    case False
    with Cons.prems lct b show ?thesis by simp
  qed
qed

lemma nondecreasing_Cons:
  "nondecreasing (x # xs) \<longleftrightarrow>
     x \<noteq> None \<and> (\<forall>y \<in> set xs. y \<noteq> None \<and> the x \<le> the y) \<and> nondecreasing xs"
  by (auto simp: nondecreasing_def list_all_iff)

lemma nondecreasing_last:
  "nondecreasing (map f xs) \<Longrightarrow> x \<in> set xs \<Longrightarrow>
     f x \<noteq> None \<and> f (last xs) \<noteq> None \<and> the (f x) \<le> the (f (last xs))"
proof (induction xs)
  case Nil
  then show ?case by simp
next
  case (Cons a xs)
  show ?case
  proof (cases "xs = []")
    case True
    with Cons.prems show ?thesis by (simp add: nondecreasing_Cons)
  next
    case False
    then have l: "last xs \<in> set xs" by simp
    from Cons.prems(1) have nd: "nondecreasing (map f xs)" and a: "f a \<noteq> None"
      and le: "\<forall>y \<in> set xs. f y \<noteq> None \<and> the (f a) \<le> the (f y)"
      by (auto simp: nondecreasing_Cons)
    show ?thesis
    proof (cases "x = a")
      case True
      with a le l False show ?thesis by simp
    next
      case neq: False
      with Cons.prems(2) have "x \<in> set xs" by simp
      from Cons.IH [OF nd this] False show ?thesis by simp
    qed
  qed
qed

text \<open>On a batch in time order the inner loop keeps exactly the candles up to \<open>to_time\<close>.\<close>

lemma truncate_sorted:
  "nondecreasing (map (unix utcoffset) batch) \<Longrightarrow>
     truncate_batch utcoffset (PInt t) batch = Inr [c \<leftarrow> batch. the (unix utcoffset c) \<le> t]"
proof (induction batch)
  case Nil
  show ?case by simp
next
  case (Cons c rest)
  from Cons.prems have nd: "nondecreasing (map (unix utcoffset) rest)"
    and le: "\<forall>y \<in> set rest. the (unix utcoffset c) \<le> the (unix utcoffset y)"
    and "unix utcoffset c \<noteq> None"
    by (auto simp: nondecreasing_Cons)
  then obtain u where u: "unix utcoffset c = Some u" by auto
  from unix_SomeD [OF u] have ct: "candle_time utcoffset c = Inr (PInt u)" .
  show ?case
  proof (cases "u \<le> t")
    case True
    with Cons.IH [OF nd] ct u show ?thesis by simp
  next
    case False
    with le u have "[c \<leftarrow> rest. the (unix utcoffset c) \<le> t] = []"
      by (auto simp: filter_empty_conv)
    with False ct u show ?thesis by simp
  qed
qed

lemma extend_result_bounded:
  assumes "extend_result utcoffset (PInt t) lct batch result = (fl, r)"
    and "candle_time utcoffset (last batch) = Inr lct"
    and "nondecreasing (map (unix utcoffset) batch)"
    and "\<forall>c \<in> set result. \<exists>u. unix utcoffset c = Some u \<and> u \<le> t"
  shows "\<forall>c \<in> set r. \<exists>u. unix utcoffset c = Some u \<and> u \<le> t"
proof (cases "py_le lct (PInt t)")
  case (Inl e)
  with assms(1,4) show ?thesis by (simp add: extend_result_def)
next
  case (Inr b)
  from py_le_PInt [OF Inr] obtain l where l: "lct = PInt l" "b = (l \<le> t)" by blast
  show ?thesis
  proof (cases b)
    case True
    with assms(1) Inr have r: "r = result @ batch" by (simp add: extend_result_def)
    from assms(2) l have ul: "unix utcoffset (last batch) = Some l" by (simp add: unix_candle_time)
    have "\<exists>u. unix utcoffset c = Some u \<and> u \<le> t" if "c \<in> set batch" for c
      using nondecreasing_last [OF assms(3) that] ul l True by auto
    with assms(4) r show ?thesis by auto
  next
    case False
    show ?thesis
    proof (cases "truncate_batch utcoffset (PInt t) batch")
      case (Inl e)
      with assms(1,4) Inr False show ?thesis by (simp add: extend_result_def)
    next
      case kept: (Inr kept)
      with assms(1) Inr False have "r = result @ kept" by (simp add: extend_result_def)
      with truncate_bounded [OF kept] assms(4) show ?thesis by auto
    qed
  qed
qed

lemma loop_body_result:
  assumes "loop_body utcoffset t batch L w = (fl, L', w')"
  shows "l_result L' = l_result L
     \<or> (\<exists>lct fl'. candle_time utcoffset (last batch) = Inr lct
           \<and> extend_result utcoffset t lct batch (l_result L) = (fl', l_result L'))"
proof (cases "candle_time utcoffset (last batch)")
  case (Inl e)
  with assms show ?thesis by (simp add: loop_body_def)
next
  case (Inr lct)
  obtain fl' r where e: "extend_result utcoffset t lct batch (l_result L) = (fl', r)"
    by (cases "extend_result utcoffset t lct batch (l_result L)")
  from assms Inr e have "l_result L' = l_result L \<or> l_result L' = r"
    by (cases fl') (auto simp: loop_body_def split: sum.splits)
  with Inr e show ?thesis by auto
qed

lemma loop_body_bounded:
  assumes "loop_body utcoffset (PInt t) batch L w = (fl, L', w')"
    and "nondecreasing (map (unix utcoffset) batch)"
    and "\<forall>c \<in> set (l_result L). \<exists>u. unix utcoffset c = Some u \<and> u \<le> t"
  shows "\<forall>c \<in> set (l_result L'). \<exists>u. unix utcoffset c = Some u \<and> u \<le> t"
  using loop_body_result [OF assms(1)] assms(2,3) extend_result_bounded
  by metis


lemma paginate_bounded:
  assumes "well_behaved utcoffset api"
  shows "paginate n utcoffset api (PInt t) L w = Some (Inr result, cfg', w') \<Longrightarrow>
     \<forall>c \<in> set (l_result L). \<exists>u. unix utcoffset c = Some u \<and> u \<le> t \<Longrightarrow>
     \<forall>c \<in> set result. \<exists>u. unix utcoffset c = Some u \<and> u \<le> t"
proof (induction n arbitrary: L w)
  case 0
  then show ?case by simp
next
  case (Suc n)
  obtain b w1 where b: "download_batch api (l_cfg L) w = (b, w1)"
    by (cases "download_batch api (l_cfg L) w")
  show ?case
  proof (cases b)
    case (Inl e)
    with Suc.prems(1) b show ?thesis by simp
  next
    case (Inr batch)
    note nd = well_behaved_batch(1) [OF assms b [unfolded Inr]]
    show ?thesis
    proof (cases "length batch = 0")
      case True
      with Suc.prems b Inr show ?thesis by simp
    next
      case False
      obtain fl L' w2 where lb: "loop_body utcoffset (PInt t) batch L w1 = (fl, L', w2)"
        by (cases "loop_body utcoffset (PInt t) batch L w1")
      note bd = loop_body_bounded [OF lb nd Suc.prems(2)]
      show ?thesis
      proof (cases fl)
        case (Raise e)
        with Suc.prems(1) b Inr False lb show ?thesis by simp
      next
        case Break
        with Suc.prems(1) b Inr False lb bd show ?thesis by auto
      next
        case Continue
        with Suc.prems(1) b Inr False lb
        have "paginate n utcoffset api (PInt t) L' w2 = Some (Inr result, cfg', w')" by simp
        from Suc.IH [OF this bd] show ?thesis .
      qed
    qed
  qed
qed

lemma download_bounded:
  assumes "well_behaved utcoffset api" "to_time cfg = PInt t" "count cfg = None"
    and "download fuel utcoffset api cfg w = Some (Inr result, cfg', w')"
  shows "\<forall>c \<in> set result. \<exists>u. unix utcoffset c = Some u \<and> u \<le> t"
proof -
  obtain b w1 where b: "download_batch api cfg w = (b, w1)"
    by (cases "download_batch api cfg w")
  show ?thesis
  proof (cases b)
    case (Inr batch)
    with assms(4) b have "result = batch" by (simp add: download_def)
    with well_behaved_batch(2) [OF assms(1) b [unfolded Inr] assms(3,2)] show ?thesis by simp
  next
    case (Inl e)
    with assms(4) b have "paginate fuel utcoffset api (PInt t)
              \<lparr>l_result = [], l_from_time = from_time cfg, l_is_first_batch = True,
               l_cfg = cfg\<lparr>to_time := PNone, count := Some MAX_API_CANDLES\<rparr>\<rparr> w1
           = Some (Inr result, cfg', w')"
      by (auto simp: download_def assms(2) split: if_splits)
    from paginate_bounded [OF assms(1) this] show ?thesis by simp
  qed
qed

lemma paginate_truncates:
  assumes "download_batch api (l_cfg L) w = (Inr batch, w1)" "batch \<noteq> []"
    and "nondecreasing (map (unix utcoffset) batch)"
    and "unix utcoffset (last batch) = Some l" "t < l"
  shows "paginate (Suc n) utcoffset api (PInt t) L w
     = Some (Inr (l_result L @ [c \<leftarrow> batch. the (unix utcoffset c) \<le> t]), l_cfg L, w1)"
proof -
  from unix_SomeD [OF assms(4)] have lt: "candle_time utcoffset (last batch) = Inr (PInt l)" .
  have "loop_body utcoffset (PInt t) batch L w1
     = (Break, L\<lparr>l_result := l_result L @ [c \<leftarrow> batch. the (unix utcoffset c) \<le> t]\<rparr>, w1)"
    using assms(5) by (simp add: loop_body_def extend_result_def lt truncate_sorted [OF assms(3)])
  from paginate_break [OF assms(1,2) this] show ?thesis by simp
qed

text \<open>
  The end time in the host's reading of the candle times, which is \<open>unix utcoffset\<close>.
  Against a remote side that sends its candles oldest first and honours \<open>toTime\<close> in
  that same reading, a download with an end time returns no candle that the host reads
  as later than that time. In the loop, a batch whose last candle reads later than
  \<open>to_time\<close> is cut to exactly its candles that read up to \<open>to_time\<close>, these are appended,
  and the download ends with that batch call as its last.
\<close>

lemma end_time_in_host_reading:
  "(well_behaved utcoffset api \<and> to_time cfg = PInt t \<and> count cfg = None
      \<and> download fuel utcoffset api cfg w = Some (Inr result, cfg', w')
     \<longrightarrow> (\<forall>c \<in> set result. \<exists>u. unix utcoffset c = Some u \<and> u \<le> t))
   \<and> (download_batch api (l_cfg L) w0 = (Inr batch, w1) \<and> batch \<noteq> []
      \<and> nondecreasing (map (unix utcoffset) batch)
      \<and> unix utcoffset (last batch) = Some l \<and> t < l
     \<longrightarrow> paginate (Suc n) utcoffset api (PInt t) L w0
           = Some (Inr (l_result L @ [c \<leftarrow> batch. the (unix utcoffset c) \<le> t]), l_cfg L, w1))"
  using download_bounded [of utcoffset api cfg t fuel w result cfg' w']
    paginate_truncates [of api L w0 batch w1 utcoffset l t n]
  by blast

section \<open>The reference remote side\<close>

lemma nondecreasing_filter:
  "nondecreasing (map f xs) \<Longrightarrow> nondecreasing (map f (filter P xs))"
  by (auto simp: nondecreasing_def list_all_iff intro: sorted_filter)

lemma nondecreasing_take:
  assumes "nondecreasing (map f xs)"
  shows "nondecreasing (map f (take n xs))"
proof -
  have 1: "list_all (\<lambda>x. x \<noteq> None) (map f (take n xs))"
    using assms by (auto simp: nondecreasing_def list_all_iff dest: in_set_takeD)
  have "map the (map f (take n xs)) = take n (map the (map f xs))"
    by (simp add: take_map)
  moreover from assms have "sorted (take n (map the (map f xs)))"
    unfolding nondecreasing_def by (intro sorted_wrt_take) simp
  ultimately have "sorted (map the (map f (take n xs)))" by simp
  with 1 show ?thesis by (simp add: nondecreasing_def)
qed

lemma not_after_PInt:
  "not_after utcoffset (Some (PInt t)) k \<longleftrightarrow> (\<exists>u. stamp utcoffset k = Some u \<and> u \<le> t)"
  by (auto simp: not_after_def split: option.splits)

lemma server_well_behaved:
  assumes "nondecreasing (map (stamp utcoffset) src)"
  shows "well_behaved utcoffset (server utcoffset src too_many)"
  unfolding well_behaved_def
proof (intro allI impI, elim conjE)
  fix kw s r s' ks
  assume a: "server utcoffset src too_many kw s = (Response r, s')" "status r = 200"
    "candles (body r) = Some ks"
  then have ks: "ks = window utcoffset src kw"
    by (auto simp: server_def split: if_splits)
  have nd: "nondecreasing (map (stamp utcoffset) ks)"
    unfolding ks window_def
    by (auto split: option.splits intro!: nondecreasing_take nondecreasing_filter assms)
  have "\<exists>u. stamp utcoffset k = Some u \<and> u \<le> t"
    if "k_toTime kw = Some (PInt t)" "k \<in> set ks" for t k
    using that unfolding ks window_def
    by (auto split: option.splits simp: not_after_PInt dest!: in_set_takeD)
  with nd show "nondecreasing (map (stamp utcoffset) ks)
            \<and> (\<forall>t. k_toTime kw = Some (PInt t)
                  \<longrightarrow> (\<forall>k \<in> set ks. \<exists>u. stamp utcoffset k = Some u \<and> u \<le> t))"
    by blast
qed

lemma download_batch_server:
  "download_batch (server utcoffset src too_many) cfg w
     = (if too_many (batch_kwargs cfg) then Inl MaxCountError
        else to_candles cfg (window utcoffset src (batch_kwargs cfg)),
        w\<lparr>requests := requests w @ [batch_kwargs cfg]\<rparr>)"
  by (simp add: download_batch_def eval_nat_numeral call_def server_def read_response_def)

lemma to_candles_quotes:
  "price cfg = ''M'' \<Longrightarrow>
     to_candles cfg (map quote ts) = Inr (map (\<lambda>t. emitted (time_crop_fraction t)) ts)"
  by (induction ts) (simp_all add: to_candle_quote)

lemma stamp_quote_digits:
  "time_crop_fraction t = s \<Longrightarrow> s \<noteq> [] \<Longrightarrow> \<forall>c \<in> set s. is_digit c \<Longrightarrow>
   length s \<le> max_str_digits \<Longrightarrow>
     stamp utcoffset (quote t) = Some (int (decimal s))"
  by (simp add: stamp_def quote_def time_to_unix_digits del: time_to_unix.simps)

lemma decimal_150: "decimal ''150'' = 150"
  by (simp add: decimal_def digit_val_simps)

lemma stamps_src3:
  "stamp utcoffset (quote ''50.000000000'') = Some 50"
  "stamp utcoffset (quote ''100.000000000'') = Some 100"
  "stamp utcoffset (quote ''150.000000000'') = Some 150"
  using stamp_quote_digits [of "''50.000000000''" "''50''" utcoffset]
    stamp_quote_digits [of "''100.000000000''" "''100''" utcoffset]
    stamp_quote_digits [of "''150.000000000''" "''150''" utcoffset]
  by (simp_all add: decimal_50 decimal_100 decimal_150 digit_simps max_str_digits_def)

lemma src3_nondecreasing: "nondecreasing (map (stamp utcoffset) src3)"
  by (simp add: src3_def stamps_src3 nondecreasing_def)


lemma unix_emitted_150: "unix utcoffset (emitted ''150'') = Some 150"
  using unix_emitted_digits [of "''150''" utcoffset] by (simp add: decimal_150 digit_simps max_str_digits_def)

lemma window_src3:
  "window utcoffset src3 (batch_kwargs (cfg0\<lparr>to_time := PNone, count := Some MAX_API_CANDLES\<rparr>))
     = src3"
  by (simp add: window_def batch_kwargs_def price_cfg0 later_def not_after_def src3_def
        stamps_src3 MAX_API_CANDLES_def)

lemma batch_src3:
  "download_batch (server utcoffset src3 spans)
       (cfg0\<lparr>to_time := PNone, count := Some MAX_API_CANDLES\<rparr>) w
     = (Inr [emitted ''50'', emitted ''100'', emitted ''150''],
        w\<lparr>requests := requests w
             @ [batch_kwargs (cfg0\<lparr>to_time := PNone, count := Some MAX_API_CANDLES\<rparr>)]\<rparr>)"
proof -
  have "to_candles (cfg0\<lparr>to_time := PNone, count := Some MAX_API_CANDLES\<rparr>) src3
      = Inr [emitted ''50'', emitted ''100'', emitted ''150'']"
    using to_candles_quotes [of "cfg0\<lparr>to_time := PNone, count := Some MAX_API_CANDLES\<rparr>"
        "[''50.000000000'', ''100.000000000'', ''150.000000000'']"]
    by (simp add: src3_def price_cfg0)
  then show ?thesis
    by (simp add: download_batch_server window_src3) (simp add: spans_def batch_kwargs_def)
qed

lemma span_refused:
  "download_batch (server utcoffset src spans) cfg0 w
     = (Inl MaxCountError, w\<lparr>requests := requests w @ [batch_kwargs cfg0]\<rparr>)"
  by (simp add: download_batch_server) (simp add: spans_def batch_kwargs_def price_cfg0)

lemma end_time_in_host_reading_example:
  "download (Suc 0) (\<lambda>t. 0) (server (\<lambda>t. 0) src3 spans) cfg0 (world0 ())
     = Some (Inr [emitted ''50'', emitted ''100''],
             cfg0\<lparr>to_time := PNone, count := Some MAX_API_CANDLES\<rparr>,
             \<lparr>remote = (), requests = [batch_kwargs cfg0,
                 batch_kwargs (cfg0\<lparr>to_time := PNone, count := Some MAX_API_CANDLES\<rparr>)],
              stdout = [], files = (\<lambda>name. None), open_fails = (\<lambda>name. None)\<rparr>)
   \<and> (\<exists>u. unix (\<lambda>t. 0) (emitted ''100'') = Some u \<and> u \<le> 100)"
proof -
  let ?tz = "\<lambda>t::int. 0::int"
  let ?api = "server ?tz src3 spans"
  let ?c1 = "cfg0\<lparr>to_time := PNone, count := Some MAX_API_CANDLES\<rparr>"
  let ?w1 = "(world0 ())\<lparr>requests := requests (world0 ()) @ [batch_kwargs cfg0]\<rparr>"
  let ?w2 = "?w1\<lparr>requests := requests ?w1 @ [batch_kwargs ?c1]\<rparr>"
  let ?L = "\<lparr>l_result = [], l_from_time = PInt 0, l_is_first_batch = True, l_cfg = ?c1\<rparr>"
  let ?batch = "[emitted ''50'', emitted ''100'', emitted ''150'']"
  have nd: "nondecreasing (map (unix ?tz) ?batch)"
    by (simp add: nondecreasing_def unix_emitted_50 unix_emitted_100 unix_emitted_150)
  have b: "download_batch ?api (l_cfg ?L) ?w1 = (Inr ?batch, ?w2)"
    using batch_src3 [of ?tz ?w1] by simp
  have "paginate (Suc 0) ?tz ?api (PInt 100) ?L ?w1
      = Some (Inr (l_result ?L @ [c \<leftarrow> ?batch. the (unix ?tz c) \<le> 100]), l_cfg ?L, ?w2)"
    using end_time_in_host_reading [where api = ?api and L = ?L and ?w0.0 = ?w1 and batch = ?batch
        and ?w1.0 = ?w2 and utcoffset = ?tz and l = 150 and t = 100 and n = 0] b nd
    by (simp add: unix_emitted_150)
  then have p: "paginate (Suc 0) ?tz ?api (PInt 100) ?L ?w1
      = Some (Inr [emitted ''50'', emitted ''100''], ?c1, ?w2)"
    by (simp add: unix_emitted_50 unix_emitted_100 unix_emitted_150 del: paginate.simps)
  have d: "download (Suc 0) ?tz ?api cfg0 (world0 ())
      = Some (Inr [emitted ''50'', emitted ''100''], ?c1, ?w2)"
    by (simp add: download_def span_refused price_cfg0 p del: paginate.simps)
  have wb: "well_behaved ?tz ?api"
    by (rule server_well_behaved) (rule src3_nondecreasing)
  have "\<forall>c \<in> set [emitted ''50'', emitted ''100'']. \<exists>u. unix ?tz c = Some u \<and> u \<le> 100"
    using end_time_in_host_reading [where api = ?api and utcoffset = ?tz and cfg = cfg0 and t = 100
        and fuel = "Suc 0" and w = "world0 ()" and result = "[emitted ''50'', emitted ''100'']"
        and cfg' = ?c1 and w' = ?w2] wb d
    by (simp add: price_cfg0)
  then have "\<exists>u. unix ?tz (emitted ''100'') = Some u \<and> u \<le> 100" by simp
  with d show ?thesis by (simp add: world0_def)
qed


section \<open>A host that is not in UTC\<close>

text \<open>
  The candle times that the remote side sends in the RFC3339 format are times in UTC.
  Read with the offset 0 such a time is the instant it denotes; the downloader reads it
  with the offset of the host.
\<close>

lemma unix_emitted_fixed:
  assumes "strptime_datetime a = Some c" "wall_seconds c = n"
    and "min_seconds \<le> n - 86400" "n \<le> max_seconds"
    and "min_seconds \<le> n + k" "n + k \<le> max_seconds"
  shows "unix (\<lambda>u. k) (emitted a) = Some (n - k)"
  using local_to_seconds_fixed [OF assms(3-6)] assms(1,2)
  by (simp add: unix_def candle_time_def getitem_def emitted_def convert_def timestamp_def)

lemma strptime_datetime_examples:
  "strptime_datetime ''2019-02-20T08:30:00'' =
     Some \<lparr>c_year = 2019, c_month = 2, c_day = 20, c_hour = 8, c_minute = 30, c_second = 0\<rparr>"
  "strptime_datetime ''2019-02-20T08:45:00'' =
     Some \<lparr>c_year = 2019, c_month = 2, c_day = 20, c_hour = 8, c_minute = 45, c_second = 0\<rparr>"
  "strptime_datetime ''2019-02-20T09:59:59'' =
     Some \<lparr>c_year = 2019, c_month = 2, c_day = 20, c_hour = 9, c_minute = 59, c_second = 59\<rparr>"
  by (simp_all add: parse_defs)

lemma wall_seconds_examples:
  "wall_seconds \<lparr>c_year = 2019, c_month = 2, c_day = 20, c_hour = 8, c_minute = 30, c_second = 0\<rparr>
     = 1550651400"
  "wall_seconds \<lparr>c_year = 2019, c_month = 2, c_day = 20, c_hour = 8, c_minute = 45, c_second = 0\<rparr>
     = 1550652300"
  "wall_seconds \<lparr>c_year = 2019, c_month = 2, c_day = 20, c_hour = 9, c_minute = 59, c_second = 59\<rparr>
     = 1550656799"
  by (simp_all add: stamp_defs)

text \<open>The three candle times of the examples, as instants and as the host east of UTC reads them.\<close>

lemma unix_utc:
  "unix (\<lambda>u. 0) (emitted ''2019-02-20T08:30:00'') = Some 1550651400"
  "unix (\<lambda>u. 0) (emitted ''2019-02-20T08:45:00'') = Some 1550652300"
  "unix (\<lambda>u. 0) (emitted ''2019-02-20T09:59:59'') = Some 1550656799"
  using unix_emitted_fixed [OF strptime_datetime_examples(1) wall_seconds_examples(1), of 0]
    unix_emitted_fixed [OF strptime_datetime_examples(2) wall_seconds_examples(2), of 0]
    unix_emitted_fixed [OF strptime_datetime_examples(3) wall_seconds_examples(3), of 0]
  by (simp_all add: min_seconds_def max_seconds_def)

lemma unix_east:
  "unix east (emitted ''2019-02-20T08:30:00'') = Some 1550647800"
  "unix east (emitted ''2019-02-20T08:45:00'') = Some 1550648700"
  "unix east (emitted ''2019-02-20T09:59:59'') = Some 1550653199"
  using unix_emitted_fixed [OF strptime_datetime_examples(1) wall_seconds_examples(1), of 3600]
    unix_emitted_fixed [OF strptime_datetime_examples(2) wall_seconds_examples(2), of 3600]
    unix_emitted_fixed [OF strptime_datetime_examples(3) wall_seconds_examples(3), of 3600]
  by (simp_all add: min_seconds_def max_seconds_def east_def)

lemma crop_examples:
  "time_crop_fraction ''2019-02-20T08:30:00.000000000Z'' = ''2019-02-20T08:30:00''"
  "time_crop_fraction ''2019-02-20T08:45:00.000000000Z'' = ''2019-02-20T08:45:00''"
  "time_crop_fraction ''2019-02-20T09:59:59.000000000Z'' = ''2019-02-20T09:59:59''"
  by simp_all

lemma price_cfg1: "price cfg1 = ''M''" "to_time cfg1 = PInt 1550653200"
  "from_time cfg1 = PInt MIN_TIME" "count cfg1 = None"
  by (simp_all add: cfg1_def cfg0_def)

text \<open>
  A paginated download of one batch of two candles that the host reads as not later
  than the end time: the span is refused, the batch is appended whole and the bar is
  drawn, and the next batch is empty.
\<close>

lemma download_one_batch:
  assumes s: "unix utcoffset (emitted a) = Some s" and l: "unix utcoffset (emitted b) = Some l"
    and le: "l \<le> t" and ne: "s \<noteq> t"
    and fo: "\<not> float_overflow (of_int (l - s) / of_int (t - s))"
    and crop: "time_crop_fraction a' = a" "time_crop_fraction b' = b"
    and cfg: "price cfg = ''M''" "to_time cfg = PInt t"
  shows "download (Suc (Suc 0)) utcoffset scripted cfg
     (world0 [refused max_count_message, ok [quote a', quote b'], ok []])
     = Some (Inr [emitted a, emitted b],
             cfg\<lparr>to_time := PNone, count := Some MAX_API_CANDLES, from_time := PStr b\<rparr>,
             \<lparr>remote = [],
              requests = [batch_kwargs cfg,
                 batch_kwargs (cfg\<lparr>to_time := PNone, count := Some MAX_API_CANDLES\<rparr>),
                 batch_kwargs (cfg\<lparr>to_time := PNone, count := Some MAX_API_CANDLES,
                                  from_time := PStr b\<rparr>)],
              stdout = [Bar (percentage s l t), Raw cursor_up],
              files = (\<lambda>name. None), open_fails = (\<lambda>name. None)\<rparr>)"
proof -
  let ?b1 = "ok [quote a', quote b']"
  let ?w = "world0 [refused max_count_message, ?b1, ok []]"
  let ?c1 = "cfg\<lparr>to_time := PNone, count := Some MAX_API_CANDLES\<rparr>"
  let ?c2 = "?c1\<lparr>from_time := PStr b\<rparr>"
  let ?w1 = "\<lparr>remote = [?b1, ok []], requests = [batch_kwargs cfg],
      stdout = [], files = (\<lambda>name. None), open_fails = (\<lambda>name. None)\<rparr>"
  let ?w2 = "\<lparr>remote = [ok []], requests = [batch_kwargs cfg, batch_kwargs ?c1],
      stdout = [], files = (\<lambda>name. None), open_fails = (\<lambda>name. None)\<rparr>"
  let ?w3 = "?w2\<lparr>stdout := stdout ?w2 @ [Bar (of_int (l - s) / of_int (t - s) * 100),
      Raw cursor_up]\<rparr>"
  let ?w4 = "\<lparr>remote = ([] :: outcome list),
      requests = [batch_kwargs cfg, batch_kwargs ?c1, batch_kwargs ?c2],
      stdout = [Bar (percentage s l t), Raw cursor_up],
      files = (\<lambda>name. None), open_fails = (\<lambda>name. None)\<rparr>"
  let ?L = "\<lparr>l_result = [], l_from_time = from_time cfg, l_is_first_batch = True, l_cfg = ?c1\<rparr>"
  let ?L1 = "?L\<lparr>l_result := l_result ?L @ [emitted a, emitted b], l_from_time := PInt s,
      l_is_first_batch := False, l_cfg := (l_cfg ?L)\<lparr>from_time := PStr b\<rparr>\<rparr>"
  have 1: "download_batch scripted cfg ?w = (Inl MaxCountError, ?w1)"
    using download_batch_scripted [of ?w _ "[?b1, ok []]" cfg]
    by (simp add: world0_def refused_def read_refused)
  have 2: "download_batch scripted ?c1 ?w1 = (Inr [emitted a, emitted b], ?w2)"
    using read_ok_quotes [of ?c1 "[a', b']"] download_batch_scripted [of ?w1 _ "[ok []]" ?c1]
    by (simp add: ok_def cfg crop)
  have g: "getitem (last [emitted a, emitted b]) ''time'' = Inr (PStr b)"
    by (simp add: getitem_def emitted_def)
  have 3: "loop_body utcoffset (PInt t) [emitted a, emitted b] ?L ?w2 = (Continue, ?L1, ?w3)"
    by (rule loop_body_continue [where l = l and s = s, OF _ le g _ ne fo]) (simp_all add: s l)
  have 4: "download_batch scripted ?c2 ?w3 = (Inr [], ?w4)"
    using read_ok_quotes [of ?c2 "[]"] download_batch_scripted [of ?w3 _ "[]" ?c2]
    by (simp add: ok_def cfg percentage_def)
  have "paginate (Suc (Suc 0)) utcoffset scripted (PInt t) ?L ?w1
      = paginate (Suc 0) utcoffset scripted (PInt t) ?L1 ?w3"
    using 2 3
    by (intro paginate_continue [where batch = "[emitted a, emitted b]" and ?w1.0 = ?w2]) simp_all
  also have "\<dots> = Some (Inr (l_result ?L1), l_cfg ?L1, ?w4)"
    using 4 by (intro paginate_empty) simp
  finally have p: "paginate (Suc (Suc 0)) utcoffset scripted (PInt t) ?L ?w1
      = Some (Inr [emitted a, emitted b], ?c2, ?w4)"
    by (simp del: paginate.simps)
  show ?thesis
    by (simp add: download_def 1 cfg p del: paginate.simps)
qed

text \<open>
  Claim C2 does not hold of the code on a host whose zone is not UTC. The end time of
  the request is 1550653200, which is 2019-02-20T09:00:00 UTC, and the remote side is
  asked in the RFC3339 format. A batch ends with the candle of 09:59:59 UTC, the
  instant 1550656799. The host, one hour east of UTC, reads that time as 1550653199,
  finds the batch within the end time and appends it whole: the result holds a candle
  that is 3599 seconds later than the end time.
\<close>

theorem end_time_exceeded:
  "download (Suc (Suc 0)) east scripted cfg1
     (world0 [refused max_count_message,
              ok [quote ''2019-02-20T08:30:00.000000000Z'',
                  quote ''2019-02-20T09:59:59.000000000Z''],
              ok []])
     = Some (Inr [emitted ''2019-02-20T08:30:00'', emitted ''2019-02-20T09:59:59''],
             cfg1\<lparr>to_time := PNone, count := Some MAX_API_CANDLES,
                  from_time := PStr ''2019-02-20T09:59:59''\<rparr>,
             \<lparr>remote = [],
              requests = [batch_kwargs cfg1,
                 batch_kwargs (cfg1\<lparr>to_time := PNone, count := Some MAX_API_CANDLES\<rparr>),
                 batch_kwargs (cfg1\<lparr>to_time := PNone, count := Some MAX_API_CANDLES,
                                   from_time := PStr ''2019-02-20T09:59:59''\<rparr>)],
              stdout = [Bar (5399 / 54), Raw cursor_up],
              files = (\<lambda>name. None), open_fails = (\<lambda>name. None)\<rparr>)
   \<and> to_time cfg1 = PInt 1550653200
   \<and> unix (\<lambda>u. 0) (emitted ''2019-02-20T09:59:59'') = Some 1550656799"
proof -
  have "\<not> float_overflow (of_int (1550653199 - 1550647800) / of_int (1550653200 - 1550647800))"
    by (rule float_overflow_unit) simp_all
  from download_one_batch [OF unix_east(1) unix_east(3) _ _ this crop_examples(1) crop_examples(3)
      price_cfg1(1,2)]
  show ?thesis
    by (simp add: percentage_def price_cfg1 unix_utc)
qed

text \<open>
  Claim C9 does not hold of the code on a host whose zone is not UTC. The end time of
  the request is 1550653200, 2019-02-20T09:00:00 UTC. The first batch begins with the
  candle of 08:30:00 UTC, the instant 1550651400, and ends with the candle of 08:45:00
  UTC, the instant 1550652300: half of the span from the first candle to the end time,
  so that the percentage of the specification is 50. The host, one hour east of UTC,
  reads the two candle times an hour early and leaves the end time as it is: the bar it
  draws shows 900 seconds out of 5400, which is 50/3 percent.
\<close>

theorem progress_percentage_skewed:
  "download (Suc (Suc 0)) east scripted cfg1
     (world0 [refused max_count_message,
              ok [quote ''2019-02-20T08:30:00.000000000Z'',
                  quote ''2019-02-20T08:45:00.000000000Z''],
              ok []])
     = Some (Inr [emitted ''2019-02-20T08:30:00'', emitted ''2019-02-20T08:45:00''],
             cfg1\<lparr>to_time := PNone, count := Some MAX_API_CANDLES,
                  from_time := PStr ''2019-02-20T08:45:00''\<rparr>,
             \<lparr>remote = [],
              requests = [batch_kwargs cfg1,
                 batch_kwargs (cfg1\<lparr>to_time := PNone, count := Some MAX_API_CANDLES\<rparr>),
                 batch_kwargs (cfg1\<lparr>to_time := PNone, count := Some MAX_API_CANDLES,
                                   from_time := PStr ''2019-02-20T08:45:00''\<rparr>)],
              stdout = [Bar (50 / 3), Raw cursor_up],
              files = (\<lambda>name. None), open_fails = (\<lambda>name. None)\<rparr>)
   \<and> to_time cfg1 = PInt 1550653200
   \<and> unix (\<lambda>u. 0) (emitted ''2019-02-20T08:30:00'') = Some 1550651400
   \<and> unix (\<lambda>u. 0) (emitted ''2019-02-20T08:45:00'') = Some 1550652300
   \<and> percentage 1550651400 1550652300 1550653200 = 50"
proof -
  have "\<not> float_overflow (of_int (1550648700 - 1550647800) / of_int (1550653200 - 1550647800))"
    by (rule float_overflow_unit) simp_all
  from download_one_batch [OF unix_east(1) unix_east(2) _ _ this crop_examples(1) crop_examples(2)
      price_cfg1(1,2)]
  show ?thesis
    by (simp add: percentage_def price_cfg1 unix_utc)
qed

section \<open>Batches of a source in strict time order\<close>

lemma sorted_le_last:
  "sorted (map g xs) \<Longrightarrow> x \<in> set xs \<Longrightarrow> g x \<le> g (last xs)"
  for g :: "'a \<Rightarrow> int"
proof (induction xs)
  case Nil
  then show ?case by simp
next
  case (Cons a xs)
  show ?case
  proof (cases "xs = []")
    case True
    with Cons.prems show ?thesis by simp
  next
    case False
    then have l: "last xs \<in> set xs" by simp
    show ?thesis
    proof (cases "x = a")
      case True
      with Cons.prems(1) l False show ?thesis by simp
    next
      case neq: False
      with Cons.prems have "x \<in> set xs" "sorted (map g xs)" by simp_all
      with Cons.IH False show ?thesis by simp
    qed
  qed
qed

lemma strict_take_drop:
  fixes g :: "'a \<Rightarrow> int"
  assumes "sorted_wrt (<) (map g xs)" "take n xs \<noteq> []"
  shows "\<forall>x \<in> set (take n xs). g x \<le> g (last (take n xs))"
    and "\<forall>y \<in> set (drop n xs). g (last (take n xs)) < g y"
proof -
  have "sorted_wrt (<) (map g (take n xs @ drop n xs))" using assms(1) by simp
  then have s: "sorted_wrt (<) (map g (take n xs))"
    and c: "\<forall>x \<in> set (take n xs). \<forall>y \<in> set (drop n xs). g x < g y"
    unfolding map_append sorted_wrt_append by auto
  from s have "sorted (map g (take n xs))"
    by (rule sorted_wrt_mono_rel [rotated]) simp
  then show "\<forall>x \<in> set (take n xs). g x \<le> g (last (take n xs))"
    by (auto intro: sorted_le_last)
  from assms(2) have "last (take n xs) \<in> set (take n xs)" by simp
  with c show "\<forall>y \<in> set (drop n xs). g (last (take n xs)) < g y" by blast
qed

lemma filter_after_batch:
  fixes g :: "'a \<Rightarrow> int"
  assumes "sorted_wrt (<) (map g xs)" "take n xs \<noteq> []"
  shows "[k \<leftarrow> xs. g (last (take n xs)) < g k] = drop n xs"
proof -
  note td = strict_take_drop [OF assms]
  have "[k \<leftarrow> take n xs @ drop n xs. g (last (take n xs)) < g k] = drop n xs"
    unfolding filter_append using td by (auto simp: filter_empty_conv filter_id_conv)
  then show ?thesis by simp
qed

lemma filter_upto_continue:
  fixes g :: "'a \<Rightarrow> int"
  assumes "sorted_wrt (<) (map g xs)" "take n xs \<noteq> []" "g (last (take n xs)) \<le> t"
  shows "[k \<leftarrow> xs. g k \<le> t] = take n xs @ [k \<leftarrow> drop n xs. g k \<le> t]"
proof -
  note td = strict_take_drop [OF assms(1,2)]
  have "[k \<leftarrow> take n xs @ drop n xs. g k \<le> t] = take n xs @ [k \<leftarrow> drop n xs. g k \<le> t]"
    unfolding filter_append using td(1) assms(3) by (auto simp: filter_id_conv)
  then show ?thesis by simp
qed

lemma filter_upto_break:
  fixes g :: "'a \<Rightarrow> int"
  assumes "sorted_wrt (<) (map g xs)" "take n xs \<noteq> []" "t < g (last (take n xs))"
  shows "[k \<leftarrow> xs. g k \<le> t] = [k \<leftarrow> take n xs. g k \<le> t]"
proof -
  note td = strict_take_drop [OF assms(1,2)]
  have "[k \<leftarrow> take n xs @ drop n xs. g k \<le> t] = [k \<leftarrow> take n xs. g k \<le> t]"
    unfolding filter_append using td(2) assms(3) by (auto simp: filter_empty_conv)
  then show ?thesis by simp
qed

lemma strict_hd_last:
  fixes g :: "'a \<Rightarrow> int"
  assumes "sorted_wrt (<) (map g xs)" "2 \<le> length xs"
  shows "g (hd xs) < g (last xs)"
proof -
  from assms(2) obtain a b ys where xs: "xs = a # b # ys"
    by (cases xs; cases "tl xs") auto
  then have "last xs \<in> set (b # ys)" by simp
  with assms(1) xs show ?thesis by auto
qed

section \<open>Pagination against the reference remote side\<close>

lemma stamp_SomeD:
  "stamp utcoffset k = Some u \<Longrightarrow>
     time_to_unix utcoffset (PStr (time_crop_fraction (time k))) = Inr (PInt u)"
  by (auto simp: stamp_def split: sum.splits pyval.splits)

lemma later_PInt:
  "stamp utcoffset k = Some u \<Longrightarrow> later utcoffset False (PInt f) k \<longleftrightarrow> f < u"
  by (simp add: later_def)

lemma later_PStr:
  "stamp utcoffset k0 = Some u0 \<Longrightarrow> stamp utcoffset k = Some u \<Longrightarrow>
     later utcoffset False (PStr (time_crop_fraction (time k0))) k \<longleftrightarrow> u0 < u"
  by (simp add: later_def stamp_SomeD del: time_to_unix.simps)

lemma later_mono:
  "later utcoffset False v k \<Longrightarrow> stamp utcoffset k' = Some u' \<Longrightarrow>
   the (stamp utcoffset k) \<le> u' \<Longrightarrow> later utcoffset False v k'"
  by (auto simp: later_def split: sum.splits pyval.splits option.splits)

lemma to_candle_price:
  assumes "price cfg' = price cfg"
  shows "to_candle cfg' k = to_candle cfg k"
  unfolding to_candle_def assms by (rule refl)

lemma to_candles_map:
  "\<forall>k \<in> set ks. to_candle cfg k = Inr (E k) \<Longrightarrow> to_candles cfg ks = Inr (map E ks)"
  by (induction ks) simp_all

lemma increasing_stamps:
  assumes "increasing (map (stamp utcoffset) src)"
  shows "\<forall>k \<in> set src. stamp utcoffset k = Some (the (stamp utcoffset k))"
    and "sorted_wrt (<) (map (\<lambda>k. the (stamp utcoffset k)) src)"
  using assms by (auto simp: increasing_def list_all_iff comp_def)

lemma strict_filter:
  "sorted_wrt (<) (map g xs) \<Longrightarrow> sorted_wrt (<) (map g (filter P xs))"
  for g :: "'a \<Rightarrow> int"
  by (simp add: sorted_wrt_map sorted_wrt_filter)

lemma strict_take:
  "sorted_wrt (<) (map g xs) \<Longrightarrow> sorted_wrt (<) (map g (take n xs))"
  for g :: "'a \<Rightarrow> int"
  by (simp add: sorted_wrt_map sorted_wrt_take)

text \<open>The batch that the reference remote side sends for a request with the maximal count.\<close>

lemma server_batch:
  assumes "count c = Some MAX_API_CANDLES" "\<not> too_many (batch_kwargs c)"
  shows "download_batch (server utcoffset src too_many) c w
     = (to_candles c (take (nat MAX_API_CANDLES) [k \<leftarrow> src. later utcoffset False (from_time c) k]),
        w\<lparr>requests := requests w @ [batch_kwargs c]\<rparr>)"
proof -
  have "window utcoffset src (batch_kwargs c)
      = take (nat MAX_API_CANDLES) [k \<leftarrow> src. later utcoffset False (from_time c) k]"
    using assms(1) by (simp add: window_def batch_kwargs_def not_after_def)
  with assms(2) show ?thesis by (simp add: download_batch_server)
qed

text \<open>After a batch, the candles later than its last one are the rest of the list.\<close>

lemma rest_after_batch:
  fixes utcoffset src v n
  defines "g \<equiv> \<lambda>k. the (stamp utcoffset k)"
  defines "rest \<equiv> [k \<leftarrow> src. later utcoffset False v k]"
  assumes inc: "increasing (map (stamp utcoffset) src)" and ne: "take n rest \<noteq> []"
  shows "[k \<leftarrow> src. later utcoffset False
                      (PStr (time_crop_fraction (time (last (take n rest))))) k]
         = drop n rest"
proof -
  note st = increasing_stamps [OF inc]
  let ?b = "take n rest"
  from ne have lb: "last ?b \<in> set rest" by (meson in_set_takeD last_in_set)
  then have lsrc: "last ?b \<in> set src" and llater: "later utcoffset False v (last ?b)"
    by (simp_all add: rest_def)
  have sr: "sorted_wrt (<) (map g rest)"
    unfolding rest_def g_def by (rule strict_filter) (rule st(2))
  have 1: "later utcoffset False (PStr (time_crop_fraction (time (last ?b)))) k
        \<longleftrightarrow> later utcoffset False v k \<and> g (last ?b) < g k" if "k \<in> set src" for k
  proof -
    from st(1) that lsrc have sk: "stamp utcoffset k = Some (g k)"
      and sl: "stamp utcoffset (last ?b) = Some (g (last ?b))"
      by (simp_all add: g_def)
    have "g (last ?b) < g k \<Longrightarrow> later utcoffset False v k"
      using later_mono [OF llater sk] by (simp add: g_def)
    with later_PStr [OF sl sk] show ?thesis by blast
  qed
  have "[k \<leftarrow> src. later utcoffset False (PStr (time_crop_fraction (time (last ?b)))) k]
      = [k \<leftarrow> src. later utcoffset False v k \<and> g (last ?b) < g k]"
    by (rule filter_cong) (simp_all add: 1)
  also have "\<dots> = [k \<leftarrow> rest. g (last ?b) < g k]"
    by (simp add: rest_def)
  also have "\<dots> = drop n rest"
    by (rule filter_after_batch [OF sr ne])
  finally show ?thesis .
qed

lemma paginate_server:
  assumes inc: "increasing (map (stamp utcoffset) src)"
    and conv: "\<forall>k \<in> set src. to_candle cfg k = Inr (E k)"
    and tm: "\<forall>kw. k_count kw = Some MAX_API_CANDLES \<longrightarrow> \<not> too_many kw"
  shows "length rest < n \<Longrightarrow> price (l_cfg L) = price cfg \<Longrightarrow>
     count (l_cfg L) = Some MAX_API_CANDLES \<Longrightarrow>
     rest = [k \<leftarrow> src. later utcoffset False (from_time (l_cfg L)) k] \<Longrightarrow>
     (l_is_first_batch L \<longrightarrow> map (stamp utcoffset) rest \<noteq> [Some t]) \<Longrightarrow>
     (\<not> l_is_first_batch L \<longrightarrow>
        (\<exists>s. l_from_time L = PInt s \<and> (\<forall>k \<in> set rest. s < the (stamp utcoffset k)))) \<Longrightarrow>
     \<exists>cfg' w'. paginate n utcoffset (server utcoffset src too_many) (PInt t) L w
        = Some (Inr (l_result L @ map E [k \<leftarrow> rest. the (stamp utcoffset k) \<le> t]), cfg', w')"
proof (induction n arbitrary: rest L w)
  case 0
  then show ?case by simp
next
  case (Suc n)
  let ?g = "\<lambda>k. the (stamp utcoffset k)"
  let ?api = "server utcoffset src too_many"
  let ?w1 = "w\<lparr>requests := requests w @ [batch_kwargs (l_cfg L)]\<rparr>"
  define M where "M = nat MAX_API_CANDLES"
  define b where "b = take M rest"
  note st = increasing_stamps [OF inc]
  have rest_src: "set rest \<subseteq> set src" using Suc.prems(4) by auto
  have sr: "sorted_wrt (<) (map ?g rest)"
    unfolding Suc.prems(4) by (rule strict_filter) (rule st(2))
  have M2: "2 \<le> M" by (simp add: M_def MAX_API_CANDLES_def)
  have b_src: "set b \<subseteq> set src"
    using rest_src by (auto simp: b_def dest: in_set_takeD)
  have tc: "to_candles (l_cfg L) b = Inr (map E b)"
  proof (rule to_candles_map, rule ballI)
    fix k assume "k \<in> set b"
    with b_src have "k \<in> set src" by blast
    with conv to_candle_price [OF Suc.prems(2)] show "to_candle (l_cfg L) k = Inr (E k)" by simp
  qed
  have ntm: "\<not> too_many (batch_kwargs (l_cfg L))"
    using tm Suc.prems(3) by (simp add: batch_kwargs_def)
  have db: "download_batch ?api (l_cfg L) w = (Inr (map E b), ?w1)"
    using server_batch [of "l_cfg L" too_many utcoffset src w, OF Suc.prems(3) ntm] tc
    by (simp add: b_def M_def Suc.prems(4))
  show ?case
  proof (cases "rest = []")
    case True
    then have "b = []" by (simp add: b_def)
    with db have "download_batch ?api (l_cfg L) w = (Inr [], ?w1)" by simp
    from paginate_empty [OF this] True show ?thesis by simp
  next
    case False
    with M2 have bne: "b \<noteq> []" by (simp add: b_def)
    then have tne: "take M rest \<noteq> []" by (simp add: b_def)
    from bne have lb: "last b \<in> set b" and hb: "hd b \<in> set b" by simp_all
    have b_rest: "set b \<subseteq> set rest" by (auto simp: b_def dest: in_set_takeD)
    have unixE: "unix utcoffset (E k) = Some (?g k)" if "k \<in> set src" for k
      using unix_to_candle [of cfg k "E k" utcoffset] conv st(1) that by simp
    have ul: "unix utcoffset (last (map E b)) = Some (?g (last b))"
      using bne lb b_src unixE by (simp add: last_map subset_iff)
    have uh: "unix utcoffset (hd (map E b)) = Some (?g (hd b))"
      using bne hb b_src unixE by (simp add: hd_map subset_iff)
    have gt: "getitem (last (map E b)) ''time'' = Inr (PStr (time_crop_fraction (time (last b))))"
    proof -
      from lb b_src conv have "to_candle cfg (last b) = Inr (E (last b))" by blast
      from to_candle_time [OF this] bne show ?thesis by (simp add: last_map)
    qed
    have sb: "sorted_wrt (<) (map ?g b)"
      unfolding b_def by (rule strict_take) (rule sr)
    show ?thesis
    proof (cases "?g (last b) \<le> t")
      case True
      have "\<exists>s. (if l_is_first_batch L then unix utcoffset (hd (map E b)) = Some s
                  else l_from_time L = PInt s)
             \<and> s \<le> ?g (last b) \<and> s \<noteq> t"
      proof (cases "l_is_first_batch L")
        case first: True
        have le: "?g (hd b) \<le> ?g (last b)"
          using sorted_le_last [of ?g b "hd b"] sb hb
          by (simp add: sorted_wrt_mono_rel [of _ "(<)" "(\<le>)"])
        have "?g (hd b) \<noteq> t"
        proof (cases "2 \<le> length b")
          case True
          from strict_hd_last [OF sb True] \<open>?g (last b) \<le> t\<close> show ?thesis by simp
        next
          case one: False
          moreover from bne have "length b \<noteq> 0" by simp
          ultimately have l1: "length b = 1" by linarith
          with M2 have "length rest = 1" by (auto simp: b_def min_def split: if_splits)
          then obtain k0 where r: "rest = [k0]" by (cases rest) auto
          then have "k0 \<in> set src" using rest_src by simp
          with st(1) have "stamp utcoffset k0 = Some (?g k0)" by simp
          with Suc.prems(5) first r have "?g k0 \<noteq> t" by auto
          moreover from r M2 have "b = [k0]" by (simp add: b_def)
          ultimately show ?thesis by simp
        qed
        with first uh le show ?thesis by auto
      next
        case nf: False
        with Suc.prems(6) obtain s where s: "l_from_time L = PInt s"
          "\<forall>k \<in> set rest. s < ?g k" by blast
        from s(2) lb b_rest have "s < ?g (last b)" by blast
        with s(1) nf True show ?thesis by auto
      qed
      then obtain s where
        s: "if l_is_first_batch L then unix utcoffset (hd (map E b)) = Some s
            else l_from_time L = PInt s"
        and sle: "s \<le> ?g (last b)" and snt: "s \<noteq> t" by blast
      define L' where "L' = L\<lparr>l_result := l_result L @ map E b, l_from_time := PInt s,
          l_is_first_batch := False,
          l_cfg := (l_cfg L)\<lparr>from_time := PStr (time_crop_fraction (time (last b)))\<rparr>\<rparr>"
      define w2 where "w2 = ?w1\<lparr>stdout := stdout ?w1
          @ [Bar (of_int (?g (last b) - s) / of_int (t - s) * 100), Raw cursor_up]\<rparr>"
      have lbc: "loop_body utcoffset (PInt t) (map E b) L ?w1 = (Continue, L', w2)"
        unfolding L'_def w2_def
        by (rule loop_body_continue [OF ul True gt s snt float_overflow_unit [OF sle True snt]])
      have pc: "paginate (Suc n) utcoffset ?api (PInt t) L w
          = paginate n utcoffset ?api (PInt t) L' w2"
        using bne by (intro paginate_continue [OF db _ lbc]) simp
      have r': "drop M rest = [k \<leftarrow> src. later utcoffset False (from_time (l_cfg L')) k]"
        using rest_after_batch [OF inc, of M "from_time (l_cfg L)"] tne
        by (simp add: Suc.prems(4) [symmetric] b_def L'_def)
      have td: "\<forall>y \<in> set (drop M rest). ?g (last b) < ?g y"
        using strict_take_drop(2) [OF sr tne] by (simp add: b_def)
      have "\<exists>cfg' w'. paginate n utcoffset ?api (PInt t) L' w2
          = Some (Inr (l_result L' @ map E [k \<leftarrow> drop M rest. ?g k \<le> t]), cfg', w')"
      proof (rule Suc.IH)
        from False have "1 \<le> length rest" by (cases rest) simp_all
        moreover have "length (drop M rest) = length rest - M" by simp
        ultimately show "length (drop M rest) < n" using Suc.prems(1) M2 by linarith
        show "price (l_cfg L') = price cfg" using Suc.prems(2) by (simp add: L'_def)
        show "count (l_cfg L') = Some MAX_API_CANDLES" using Suc.prems(3) by (simp add: L'_def)
        show "drop M rest = [k \<leftarrow> src. later utcoffset False (from_time (l_cfg L')) k]" by (rule r')
        show "l_is_first_batch L' \<longrightarrow> map (stamp utcoffset) (drop M rest) \<noteq> [Some t]"
          by (simp add: L'_def)
        show "\<not> l_is_first_batch L' \<longrightarrow>
           (\<exists>s. l_from_time L' = PInt s \<and> (\<forall>k \<in> set (drop M rest). s < ?g k))"
          using td sle by (auto simp: L'_def)
      qed
      moreover have "l_result L' @ map E [k \<leftarrow> drop M rest. ?g k \<le> t]
          = l_result L @ map E [k \<leftarrow> rest. ?g k \<le> t]"
        using filter_upto_continue [OF sr tne, of t] True by (simp add: b_def L'_def)
      ultimately show ?thesis using pc by simp
    next
      case False
      then have lt: "t < ?g (last b)" by simp
      have eq: "map (unix utcoffset) (map E b) = map (\<lambda>k. Some (?g k)) b"
        using b_src unixE by (auto simp: subset_iff)
      from sb have "sorted (map ?g b)"
        by (rule sorted_wrt_mono_rel [rotated]) simp
      then have nd: "nondecreasing (map (unix utcoffset) (map E b))"
        unfolding eq nondecreasing_def by (simp add: list_all_iff comp_def)
      have bne': "map E b \<noteq> []" using bne by simp
      have "[c \<leftarrow> map E b. the (unix utcoffset c) \<le> t] = map E [k \<leftarrow> b. ?g k \<le> t]"
      proof -
        have "[c \<leftarrow> map E b. the (unix utcoffset c) \<le> t]
            = map E [k \<leftarrow> b. the (unix utcoffset (E k)) \<le> t]"
          by (simp add: filter_map comp_def)
        also have "[k \<leftarrow> b. the (unix utcoffset (E k)) \<le> t] = [k \<leftarrow> b. ?g k \<le> t]"
          using b_src unixE by (intro filter_cong) (auto simp: subset_iff)
        finally show ?thesis .
      qed
      moreover have "[k \<leftarrow> rest. ?g k \<le> t] = [k \<leftarrow> b. ?g k \<le> t]"
        using filter_upto_break [OF sr tne, of t] lt by (simp add: b_def)
      ultimately show ?thesis
        using paginate_truncates [OF db bne' nd ul lt, of n] by simp
    qed
  qed
qed

text \<open>
  The refinement property of the paginated download. The source is in strict time
  order, the remote side refuses the span and accepts requests with the maximal count.
  Unless the source has exactly one candle after the start time and that candle lies
  at the end time, \<open>download\<close> returns the candles of the single unbounded fetch up to
  the end time, each once and in order.
\<close>

lemma download_refines_fetch:
  assumes inc: "increasing (map (stamp utcoffset) src)"
    and conv: "\<forall>k \<in> set src. to_candle cfg k = Inr (E k)"
    and tm: "\<forall>kw. k_count kw = Some MAX_API_CANDLES \<longrightarrow> \<not> too_many kw"
    and first: "too_many (batch_kwargs cfg)"
    and t: "to_time cfg = PInt t"
    and edge: "map (stamp utcoffset) (unbounded_fetch utcoffset src (from_time cfg)) \<noteq> [Some t]"
    and fuel: "length src < fuel"
  shows "\<exists>cfg' w'. download fuel utcoffset (server utcoffset src too_many) cfg w
      = Some (Inr (map E [k \<leftarrow> unbounded_fetch utcoffset src (from_time cfg).
                          the (stamp utcoffset k) \<le> t]), cfg', w')"
proof -
  let ?api = "server utcoffset src too_many"
  let ?w1 = "w\<lparr>requests := requests w @ [batch_kwargs cfg]\<rparr>"
  let ?L = "\<lparr>l_result = [], l_from_time = from_time cfg, l_is_first_batch = True,
            l_cfg = cfg\<lparr>to_time := PNone, count := Some MAX_API_CANDLES\<rparr>\<rparr>"
  let ?rest = "unbounded_fetch utcoffset src (from_time cfg)"
  have 1: "download_batch ?api cfg w = (Inl MaxCountError, ?w1)"
    using first by (simp add: download_batch_server)
  have "length ?rest \<le> length src" by (simp add: unbounded_fetch_def)
  with fuel have len: "length ?rest < fuel" by simp
  have "\<exists>cfg' w'. paginate fuel utcoffset ?api (PInt t) ?L ?w1
      = Some (Inr (l_result ?L @ map E [k \<leftarrow> ?rest. the (stamp utcoffset k) \<le> t]), cfg', w')"
    using edge
    by (intro paginate_server [OF inc conv tm len]) (simp_all add: unbounded_fetch_def)
  with 1 t show ?thesis by (simp add: download_def)
qed

lemma fetch_span:
  assumes "increasing (map (stamp utcoffset) src)"
  shows "[k \<leftarrow> unbounded_fetch utcoffset src (PInt f). the (stamp utcoffset k) \<le> t]
     = [k \<leftarrow> src. f < the (stamp utcoffset k) \<and> the (stamp utcoffset k) \<le> t]"
proof -
  note st = increasing_stamps(1) [OF assms]
  have "later utcoffset False (PInt f) k \<longleftrightarrow> f < the (stamp utcoffset k)" if "k \<in> set src" for k
    using later_PInt [of utcoffset k "the (stamp utcoffset k)" f] st that by simp
  then show ?thesis
    unfolding unbounded_fetch_def filter_filter by (intro filter_cong) auto
qed

text \<open>The instance with the three candles at 50, 100 and 150 and the span from 0 to 100.\<close>

lemma download_refines_fetch_example:
  "\<exists>cfg' w'. download 4 (\<lambda>t. 0) (server (\<lambda>t. 0) src3 spans) cfg0 (world0 ())
      = Some (Inr [emitted ''50'', emitted ''100''], cfg', w')"
proof -
  let ?tz = "\<lambda>t::int. 0::int"
  have inc: "increasing (map (stamp ?tz) src3)"
    by (simp add: src3_def stamps_src3 increasing_def)
  have conv: "\<forall>k \<in> set src3. to_candle cfg0 k = Inr (emitted (time_crop_fraction (time k)))"
    by (simp add: src3_def to_candle_quote price_cfg0) (simp add: quote_def)
  have tm: "\<forall>kw. k_count kw = Some MAX_API_CANDLES \<longrightarrow> \<not> spans kw"
    by (simp add: spans_def)
  have first: "spans (batch_kwargs cfg0)"
    by (simp add: spans_def batch_kwargs_def price_cfg0)
  have fetch: "unbounded_fetch ?tz src3 (from_time cfg0) = src3"
    by (simp add: unbounded_fetch_def price_cfg0 src3_def later_def stamps_src3)
  have edge: "map (stamp ?tz) (unbounded_fetch ?tz src3 (from_time cfg0)) \<noteq> [Some 100]"
    by (simp add: fetch) (simp add: src3_def)
  have len: "length src3 < 4" by (simp add: src3_def)
  have kept: "[k \<leftarrow> src3. the (stamp ?tz k) \<le> 100]
      = [quote ''50.000000000'', quote ''100.000000000'']"
    by (simp add: src3_def stamps_src3)
  have em: "map (\<lambda>k. emitted (time_crop_fraction (time k)))
        [quote ''50.000000000'', quote ''100.000000000'']
      = [emitted ''50'', emitted ''100'']"
    by (simp add: quote_def)
  from download_refines_fetch [OF inc conv tm first price_cfg0(2) edge len, of "world0 ()"]
  show ?thesis
    unfolding fetch kept em .
qed

section \<open>The single candle at the end time\<close>

lemma batch_single:
  "download_batch (server utcoffset [quote ''100.000000000''] spans)
       (cfg0\<lparr>to_time := PNone, count := Some MAX_API_CANDLES\<rparr>) w
     = (Inr [emitted ''100''],
        w\<lparr>requests := requests w
             @ [batch_kwargs (cfg0\<lparr>to_time := PNone, count := Some MAX_API_CANDLES\<rparr>)]\<rparr>)"
proof -
  let ?c1 = "cfg0\<lparr>to_time := PNone, count := Some MAX_API_CANDLES\<rparr>"
  have 1: "count ?c1 = Some MAX_API_CANDLES" by simp
  have 2: "\<not> spans (batch_kwargs ?c1)" by (simp add: spans_def batch_kwargs_def)
  have 3: "take (nat MAX_API_CANDLES)
        [k \<leftarrow> [quote ''100.000000000'']. later utcoffset False (from_time ?c1) k]
      = [quote ''100.000000000'']"
    by (simp add: price_cfg0 later_def stamps_src3 MAX_API_CANDLES_def)
  have 4: "to_candles ?c1 [quote ''100.000000000''] = Inr [emitted ''100'']"
    using to_candles_quotes [of ?c1 "[''100.000000000'']"] by (simp add: price_cfg0)
  from server_batch [of ?c1 spans utcoffset "[quote ''100.000000000'']" w, OF 1 2]
  show ?thesis by (simp only: 3 4)
qed

text \<open>
  Claim C1 at the input where the code departs from it. The source holds one candle,
  at the requested end time 100; the remote side refuses the span from 0 to 100 and
  the download paginates. The single unbounded fetch, up to the end time, is that one
  candle. \<open>download\<close> receives it, appends it, sets the start of the progress bar to
  100 and raises \<open>ZeroDivisionError\<close> in \<open>progress_bar\<close>: it returns no result.
\<close>

theorem download_single_candle_at_end:
  "(\<exists>cfg' w'. download (Suc n) (\<lambda>t. 0) (server (\<lambda>t. 0) [quote ''100.000000000''] spans)
                  cfg0 (world0 ())
               = Some (Inl ZeroDivisionError, cfg', w'))
   \<and> to_candles cfg0
        [k \<leftarrow> unbounded_fetch (\<lambda>t. 0) [quote ''100.000000000''] (from_time cfg0).
           the (stamp (\<lambda>t. 0) k) \<le> 100]
       = Inr [emitted ''100'']"
proof
  let ?tz = "\<lambda>t::int. 0::int"
  let ?api = "server ?tz [quote ''100.000000000''] spans"
  let ?c1 = "cfg0\<lparr>to_time := PNone, count := Some MAX_API_CANDLES\<rparr>"
  let ?w1 = "(world0 ())\<lparr>requests := requests (world0 ()) @ [batch_kwargs cfg0]\<rparr>"
  let ?w2 = "?w1\<lparr>requests := requests ?w1 @ [batch_kwargs ?c1]\<rparr>"
  let ?L = "\<lparr>l_result = [], l_from_time = PInt 0, l_is_first_batch = True, l_cfg = ?c1\<rparr>"
  have 1: "download_batch ?api cfg0 (world0 ()) = (Inl MaxCountError, ?w1)"
    by (rule span_refused)
  have 2: "download_batch ?api (l_cfg ?L) ?w1 = (Inr [emitted ''100''], ?w2)"
    using batch_single [of ?tz ?w1] by simp
  from loop_body_zero_division [of "[emitted ''100'']" ?L ?tz 100 100 ?w2]
  obtain L' where 3: "loop_body ?tz (PInt 100) [emitted ''100''] ?L ?w2
      = (Raise ZeroDivisionError, L', ?w2)"
    by (auto simp: unix_emitted_100)
  have "paginate (Suc n) ?tz ?api (PInt 100) ?L ?w1 = Some (Inl ZeroDivisionError, l_cfg L', ?w2)"
    by (rule paginate_raise [OF 2 _ 3]) simp
  then show "\<exists>cfg' w'. download (Suc n) ?tz ?api cfg0 (world0 ())
               = Some (Inl ZeroDivisionError, cfg', w')"
    by (simp add: download_def 1 price_cfg0 del: paginate.simps)
next
  have "unbounded_fetch (\<lambda>t. 0) [quote ''100.000000000''] (from_time cfg0)
      = [quote ''100.000000000'']"
    by (simp add: unbounded_fetch_def price_cfg0 later_def stamps_src3)
  then show "to_candles cfg0
        [k \<leftarrow> unbounded_fetch (\<lambda>t. 0) [quote ''100.000000000''] (from_time cfg0).
           the (stamp (\<lambda>t. 0) k) \<le> 100]
       = Inr [emitted ''100'']"
    using to_candles_quotes [of cfg0 "[''100.000000000'']"]
    by (simp add: stamps_src3 price_cfg0)
qed

end
